theory Spec2Isabelle
  imports Complex_Main
begin

section \<open>TraceCam: the capture-and-record pipeline\<close>

text \<open>
  The embedding follows the most complete variant of the module
  (\<^verbatim>\<open>src/unnamed/part_001\<close>); the two functions in which the oldest variant
  (\<^verbatim>\<open>src/app.js\<close>) differs and on which a property depends (\<^verbatim>\<open>savePhotos\<close>,
  \<^verbatim>\<open>reverseGeocode\<close>) are embedded a second time under the suffix \<open>_v0\<close>.

  Conventions.
  \<^item> A JavaScript number is a \<^typ>\<open>real\<close>: arithmetic is exact, and \<open>NaN\<close> and the
    infinities are not values. Where a property depends on the rounding of a product, the
    rounding function is a parameter (\<open>fl\<close>).
  \<^item> A field that may hold \<^verbatim>\<open>undefined\<close> or \<^verbatim>\<open>null\<close> is an \<open>option\<close>; both are
    \<open>None\<close> (the code only ever tests such a field for truthiness or joins it into a string,
    and both behave alike there).
  \<^item> What the browser supplies (clock, identifiers, number formatting, the JPEG encoder,
    the acceptance of a \<^verbatim>\<open>localStorage\<close> write, timers) is a parameter or an explicit
    component of the state.
  \<^item> The fields of a photo and of a log carry the prefixes \<open>photo_\<close> and \<open>log_\<close>, those of a
    location snapshot \<open>loc_\<close>, since one Isabelle name cannot be a field of two records.
\<close>

subsection \<open>Data model\<close>

record settings =
  watermarkEnabled :: bool
  coordsOnImage :: bool
  timestampOnImage :: bool
  autoSave :: bool
  fullResolution :: bool
  showLocationDecipher :: bool
  projectName :: string
  operatorName :: string

text \<open>\<^verbatim>\<open>position.coords\<close> of the Geolocation API.\<close>

record coords =
  latitude :: real
  longitude :: real
  accuracy :: "real option"
  altitude :: "real option"
  heading :: "real option"
  speed :: "real option"

text \<open>
  The object returned by \<^verbatim>\<open>toDMS\<close>. \<open>seconds\<close> is the number denoted by the string
  that \<^verbatim>\<open>toFixed(2)\<close> returns; the \<^verbatim>\<open>formatted\<close> string is not modelled.
\<close>

record dms_part =
  degrees :: int
  minutes :: int
  seconds :: real
  direction :: string

record dms =
  dms_latitude :: dms_part
  dms_longitude :: dms_part

record locationInfo =
  li_decimal :: "real \<times> real"
  li_dms :: dms
  hemisphere :: "string \<times> string"
  locationType :: string
  seasonHint :: string
  mapUrl :: string
  osmUrl :: string
  what3wordsUrl :: string

record location =
  loc_latitude :: real
  loc_longitude :: real
  loc_accuracy :: "real option"
  loc_altitude :: "real option"
  loc_heading :: "real option"
  loc_speed :: "real option"
  loc_dms :: "dms option"

record locationDecipher =
  ld_hemisphere :: "string \<times> string"
  ld_locationType :: string
  ld_seasonHint :: string
  ld_mapUrl :: string

record photo =
  photo_id :: string
  photo_sessionId :: string
  photo_imageData :: string
  photo_imageWidth :: real
  photo_imageHeight :: real
  photo_fileSizeKB :: int
  photo_quality :: string
  photo_timestamp :: string
  photo_timestampLocal :: string
  photo_timezone :: string
  photo_location :: "location option"
  photo_address :: string
  photo_locationDecipher :: "locationDecipher option"
  photo_device :: string
  photo_settings :: settings
  photo_projectName :: string
  photo_operatorName :: string

record log =
  log_id :: string
  log_timestamp :: string
  log_timestampLocal :: string
  log_timezone :: string
  log_latitude :: "real option"
  log_longitude :: "real option"
  log_accuracy :: "real option"
  log_altitude :: "real option"
  log_address :: string
  log_sessionId :: string
  log_projectName :: string
  log_operatorName :: string

subsection \<open>The browser: local storage, canvas, formatting\<close>

text \<open>
  \<^verbatim>\<open>localStorage\<close>. A stored value is the JSON text of a collection, represented by the
  collection itself. Whether a write is accepted is decided by the browser from the present
  contents, the key and the new value: the \<open>policy\<close>. \<open>attempts\<close> records every call of
  \<^verbatim>\<open>setItem\<close>, accepted or not.
\<close>

datatype blob = PhotosJSON "photo list" | LogsJSON "log list"

datatype storage_error = QuotaExceededError | OtherStorageError

type_synonym policy = "(string \<rightharpoonup> blob) \<Rightarrow> string \<Rightarrow> blob \<Rightarrow> storage_error option"

record localStorage =
  items :: "string \<rightharpoonup> blob"
  attempts :: "(string \<times> blob) list"

definition setItem :: "policy \<Rightarrow> string \<Rightarrow> blob \<Rightarrow> localStorage \<Rightarrow> localStorage \<times> storage_error option" where
  "setItem pol k v ls =
     (let ls' = ls\<lparr>attempts := attempts ls @ [(k, v)]\<rparr>
      in case pol (items ls) k v of
           Some e \<Rightarrow> (ls', Some e)
         | None \<Rightarrow> (ls'\<lparr>items := (items ls)(k \<mapsto> v)\<rparr>, None))"

definition PHOTOS_KEY :: string where "PHOTOS_KEY = ''tracecam-photos''"
definition LOGS_KEY :: string where "LOGS_KEY = ''tracecam-logs''"

text \<open>The 2D canvas: the drawing calls in the order they were made, each with the context
  attributes it was made under.\<close>

datatype draw_op =
    DrawImage real real real real
  | FillRect string real real real real
  | FillText string string string string string real real
  | StrokeLine string real real real real real

record canvas =
  cwidth :: real
  cheight :: real
  ops :: "draw_op list"

record ctx =
  fillStyle :: string
  font :: string
  textAlign :: string
  textBaseline :: string
  strokeStyle :: string
  lineWidth :: real
  drawn :: "draw_op list"

text \<open>Number formatting and JPEG encoding are the browser's.\<close>

record host =
  num_str :: "real \<Rightarrow> string"
  toFixed :: "nat \<Rightarrow> real \<Rightarrow> string"
  toDataURL :: "canvas \<Rightarrow> real \<Rightarrow> string"

text \<open>
  The device-save surface of the platform, as \<^verbatim>\<open>saveToDevice\<close> meets it: which
  interfaces exist, and how the awaited steps of each branch end (they complete, the user
  cancels, which raises \<^verbatim>\<open>AbortError\<close>, or they fail with another error).
\<close>

datatype step_result = Done | AbortError | OtherError

record platform =
  hasSaveFilePicker :: bool
  pickerSteps :: step_result
  hasShare :: bool
  fetchStep :: step_result
  canShareFiles :: bool
  shareStep :: step_result

text \<open>What one call of \<^verbatim>\<open>capturePhoto\<close> reads from the browser.\<close>

record capture_env =
  trackWidth :: real
  trackHeight :: real
  videoWidth :: real
  videoHeight :: real
  newPhotoId :: string
  isoNow :: string
  localNow :: string
  timeZone :: string
  overlayIsoNow :: string
  overlayLocalNow :: string
  addressText :: string
  deviceInfo :: string
  savePlatform :: platform

text \<open>
  The browser's timers, in milliseconds: the pending timeouts with their handle, the time
  they are due and the arguments their callback closes over (here always the coordinates of
  a reverse-geocode lookup).
\<close>

record sched =
  now :: nat
  pending :: "(nat \<times> nat \<times> real \<times> real) list"
  nextId :: nat

text \<open>
  The application state: the fields of the \<^verbatim>\<open>state\<close> object, the module variable
  \<^verbatim>\<open>geocodeTimeout\<close>, and what the module has done to its collaborators: the store,
  the capture canvas, the toasts shown, the file names handed to the platform's file picker
  or share sheet, the reverse-geocode requests issued, the files offered for download.
\<close>

record state =
  stream :: "unit option"
  position :: "coords option"
  photos :: "photo list"
  logs :: "log list"
  sessionId :: string
  settings :: settings
  locationInfo :: "locationInfo option"
  geocodeTimeout :: "nat option"
  storage :: localStorage
  the_canvas :: canvas
  timers :: sched
  toasts :: "(string \<times> string) list"
  deviceSaves :: "string list"
  requests :: "(real \<times> real) list"
  downloads :: "(string \<times> string) list"

subsection \<open>Record Store\<close>

definition showToast :: "string \<Rightarrow> string \<Rightarrow> state \<Rightarrow> state" where
  "showToast message type s = s\<lparr>toasts := toasts s @ [(message, type)]\<rparr>"

text \<open>
  \<^verbatim>\<open>savePhotos\<close>. The first write is inside \<^verbatim>\<open>try\<close>; the retry is inside the
  \<^verbatim>\<open>catch\<close> block, so an exception of the retry leaves the function: the second
  component of the result is that exception (\<open>None\<close>: the function returned).
\<close>

definition savePhotos :: "policy \<Rightarrow> state \<Rightarrow> state \<times> storage_error option" where
  "savePhotos pol s =
     (let photosToSave = take 50 (photos s);
          (ls1, r1) = setItem pol PHOTOS_KEY (PhotosJSON photosToSave) (storage s)
      in case r1 of
           None \<Rightarrow> (s\<lparr>storage := ls1\<rparr>, None)
         | Some error \<Rightarrow>
             if error = QuotaExceededError then
               (let s' = s\<lparr>photos := take 20 (photos s)\<rparr>;
                    (ls2, r2) = setItem pol PHOTOS_KEY (PhotosJSON (photos s')) ls1
                in (s'\<lparr>storage := ls2\<rparr>, r2))
             else (s\<lparr>storage := ls1\<rparr>, None))"

text \<open>\<^verbatim>\<open>savePhotos\<close> of \<^verbatim>\<open>src/app.js\<close>: one guarded write, no retry.\<close>

definition savePhotos_v0 :: "policy \<Rightarrow> state \<Rightarrow> state \<times> storage_error option" where
  "savePhotos_v0 pol s =
     (let photosToSave = take 50 (photos s);
          (ls1, r1) = setItem pol PHOTOS_KEY (PhotosJSON photosToSave) (storage s)
      in (s\<lparr>storage := ls1\<rparr>, None))"

definition saveLogs :: "policy \<Rightarrow> state \<Rightarrow> state" where
  "saveLogs pol s =
     (let (ls1, r1) = setItem pol LOGS_KEY (LogsJSON (logs s)) (storage s)
      in s\<lparr>storage := ls1\<rparr>)"

definition make_log :: "photo \<Rightarrow> log" where
  "make_log photo =
     \<lparr> log_id = photo_id photo,
       log_timestamp = photo_timestamp photo,
       log_timestampLocal = photo_timestampLocal photo,
       log_timezone = photo_timezone photo,
       log_latitude = map_option loc_latitude (photo_location photo),
       log_longitude = map_option loc_longitude (photo_location photo),
       log_accuracy = Option.bind (photo_location photo) loc_accuracy,
       log_altitude = Option.bind (photo_location photo) loc_altitude,
       log_address = photo_address photo,
       log_sessionId = photo_sessionId photo,
       log_projectName = photo_projectName photo,
       log_operatorName = photo_operatorName photo \<rparr>"

definition addLog :: "policy \<Rightarrow> photo \<Rightarrow> state \<Rightarrow> state" where
  "addLog pol photo s = saveLogs pol (s\<lparr>logs := make_log photo # logs s\<rparr>)"

text \<open>What is in the store under a key, as \<^verbatim>\<open>loadPhotos\<close> and \<^verbatim>\<open>loadLogs\<close> would
  read it.\<close>

definition persisted_photos :: "state \<Rightarrow> photo list option" where
  "persisted_photos s =
     (case items (storage s) PHOTOS_KEY of Some (PhotosJSON ps) \<Rightarrow> Some ps | _ \<Rightarrow> None)"

definition persisted_logs :: "state \<Rightarrow> log list option" where
  "persisted_logs s =
     (case items (storage s) LOGS_KEY of Some (LogsJSON ls) \<Rightarrow> Some ls | _ \<Rightarrow> None)"

definition photo_writes :: "state \<Rightarrow> blob list" where
  "photo_writes s = map snd (filter (\<lambda>(k, v). k = PHOTOS_KEY) (attempts (storage s)))"

subsection \<open>Geodetic Deriver\<close>

text \<open>
  \<^verbatim>\<open>Number.prototype.toFixed(f)\<close>, as the number its result denotes: the sign is taken
  off, \<open>n\<close> is the integer with \<open>n / 10\<^sup>f\<close> nearest to the argument, the larger one of
  two, and the result is \<open>n / 10\<^sup>f\<close> with the sign put back.
\<close>

definition toFixed_num :: "nat \<Rightarrow> real \<Rightarrow> real" where
  "toFixed_num f x =
     (if x < 0 then - (of_int \<lfloor>(- x) * 10 ^ f + 1 / 2\<rfloor> / 10 ^ f)
      else of_int \<lfloor>x * 10 ^ f + 1 / 2\<rfloor> / 10 ^ f)"

text \<open>
  The inner function \<^verbatim>\<open>toDMS\<close> of \<^verbatim>\<open>decimalToDMS\<close>. \<open>fl\<close> is the rounding of an
  arithmetic result to a double; with \<open>fl = (\<lambda>x. x)\<close> the arithmetic is exact.
\<close>

definition toDMS :: "(real \<Rightarrow> real) \<Rightarrow> real \<Rightarrow> bool \<Rightarrow> dms_part" where
  "toDMS fl decimal isLat =
     (let absolute = \<bar>decimal\<bar>;
          degs = \<lfloor>absolute\<rfloor>;
          minutesDecimal = fl (fl (absolute - of_int degs) * 60);
          mins = \<lfloor>minutesDecimal\<rfloor>;
          secs = toFixed_num 2 (fl (fl (minutesDecimal - of_int mins) * 60));
          dir = (if isLat then (if decimal \<ge> 0 then ''N'' else ''S'')
                 else (if decimal \<ge> 0 then ''E'' else ''W''))
      in \<lparr> degrees = degs, minutes = mins, seconds = secs, direction = dir \<rparr>)"

definition decimalToDMS :: "(real \<Rightarrow> real) \<Rightarrow> real \<Rightarrow> real \<Rightarrow> dms" where
  "decimalToDMS fl lat lng =
     \<lparr> dms_latitude = toDMS fl lat True, dms_longitude = toDMS fl lng False \<rparr>"

text \<open>The chain of tests in \<^verbatim>\<open>decipherLocation\<close> that sets \<^verbatim>\<open>locationType\<close>, in
  the order of the source.\<close>

definition locationType_of :: "real \<Rightarrow> string" where
  "locationType_of lat =
     (if lat \<ge> 66.5 then ''Arctic region''
      else if lat \<le> - 66.5 then ''Antarctic region''
      else if lat \<ge> 23.5 \<and> lat \<le> 66.5 then ''Northern temperate zone''
      else if lat \<ge> - 23.5 \<and> lat \<le> 23.5 then ''Tropical zone''
      else if lat \<ge> - 66.5 \<and> lat \<le> - 23.5 then ''Southern temperate zone''
      else ''Unknown area'')"

definition seasonHint_of :: "nat \<Rightarrow> real \<Rightarrow> string" where
  "seasonHint_of month lat =
     (let isNorthernSummer = (month \<ge> 3 \<and> month \<le> 8)
      in if lat \<ge> 0
         then (if isNorthernSummer then ''Northern hemisphere (summer)''
               else ''Northern hemisphere (winter)'')
         else (if isNorthernSummer then ''Southern hemisphere (winter)''
               else ''Southern hemisphere (summer)''))"

definition decipherLocation :: "host \<Rightarrow> (real \<Rightarrow> real) \<Rightarrow> nat \<Rightarrow> real \<Rightarrow> real \<Rightarrow> locationInfo" where
  "decipherLocation h fl month lat lng =
     \<lparr> li_decimal = (lat, lng),
       li_dms = decimalToDMS fl lat lng,
       hemisphere = (if lat \<ge> 0 then ''North'' else ''South'',
                     if lng \<ge> 0 then ''East'' else ''West''),
       locationType = locationType_of lat,
       seasonHint = seasonHint_of month lat,
       mapUrl = ''https://www.google.com/maps?q='' @ num_str h lat @ '','' @ num_str h lng,
       osmUrl = ''https://www.openstreetmap.org/?mlat='' @ num_str h lat @ ''&mlon=''
                @ num_str h lng @ ''#map=16/'' @ num_str h lat @ ''/'' @ num_str h lng,
       what3wordsUrl = ''https://map.what3words.com/?lat='' @ num_str h lat @ ''&lng=''
                @ num_str h lng \<rparr>"

text \<open>A DMS reading back in decimal degrees (not in the source: the inverse the round-trip
  property is stated with).\<close>

definition dms_to_decimal :: "dms_part \<Rightarrow> real" where
  "dms_to_decimal d =
     (if direction d = ''S'' \<or> direction d = ''W'' then - 1 else 1)
       * (of_int (degrees d) + of_int (minutes d) / 60 + seconds d / 3600)"

text \<open>The local variable \<^verbatim>\<open>minutesDecimal\<close> of \<^verbatim>\<open>toDMS\<close>, and the argument of its
  \<^verbatim>\<open>toFixed(2)\<close>: the two products as the code computes them.\<close>

definition minutesDecimal :: "(real \<Rightarrow> real) \<Rightarrow> real \<Rightarrow> real" where
  "minutesDecimal fl v = fl (fl (\<bar>v\<bar> - of_int \<lfloor>\<bar>v\<bar>\<rfloor>) * 60)"

definition secondsDecimal :: "(real \<Rightarrow> real) \<Rightarrow> real \<Rightarrow> real" where
  "secondsDecimal fl v =
     fl (fl (minutesDecimal fl v - of_int \<lfloor>minutesDecimal fl v\<rfloor>) * 60)"

subsection \<open>Position Tracker\<close>

definition clearTimeout :: "nat option \<Rightarrow> sched \<Rightarrow> sched" where
  "clearTimeout handle q =
     (case handle of
        None \<Rightarrow> q
      | Some i \<Rightarrow> q\<lparr>pending := filter (\<lambda>(j, due, args). j \<noteq> i) (pending q)\<rparr>)"

definition setTimeout :: "real \<times> real \<Rightarrow> nat \<Rightarrow> sched \<Rightarrow> nat \<times> sched" where
  "setTimeout args delay q =
     (nextId q,
      q\<lparr>pending := pending q @ [(nextId q, now q + delay, args)], nextId := Suc (nextId q)\<rparr>)"

text \<open>\<^verbatim>\<open>reverseGeocode\<close>: the pending lookup is cancelled and a new one is set, due in
  1000 ms. The callback of the timeout issues the request (\<open>fire\<close>).\<close>

definition reverseGeocode :: "real \<Rightarrow> real \<Rightarrow> state \<Rightarrow> state" where
  "reverseGeocode lat lng s =
     (let q1 = clearTimeout (geocodeTimeout s) (timers s);
          (i, q2) = setTimeout (lat, lng) 1000 q1
      in s\<lparr>geocodeTimeout := Some i, timers := q2\<rparr>)"

text \<open>\<^verbatim>\<open>reverseGeocode\<close> of \<^verbatim>\<open>src/app.js\<close>: the request is issued at once.\<close>

definition reverseGeocode_v0 :: "real \<Rightarrow> real \<Rightarrow> state \<Rightarrow> state" where
  "reverseGeocode_v0 lat lng s = s\<lparr>requests := requests s @ [(lat, lng)]\<rparr>"

definition updatePosition :: "host \<Rightarrow> (real \<Rightarrow> real) \<Rightarrow> nat \<Rightarrow> coords \<Rightarrow> state \<Rightarrow> state" where
  "updatePosition h fl month c s =
     (let s1 = s\<lparr>position := Some c\<rparr>;
          s2 = s1\<lparr>locationInfo := Some (decipherLocation h fl month (latitude c) (longitude c))\<rparr>
      in reverseGeocode (latitude c) (longitude c) s2)"

text \<open>The event loop lets \<open>d\<close> milliseconds pass: the timeouts that fall due run in the
  order of their due times, and each issues its request.\<close>

definition elapse :: "nat \<Rightarrow> state \<Rightarrow> state" where
  "elapse d s =
     (let t = now (timers s) + d;
          due = sort_key (\<lambda>(i, tdue, args). tdue)
                  (filter (\<lambda>(i, tdue, args). tdue \<le> t) (pending (timers s)));
          rest = filter (\<lambda>(i, tdue, args). \<not> tdue \<le> t) (pending (timers s))
      in s\<lparr>timers := (timers s)\<lparr>now := t, pending := rest\<rparr>,
            requests := requests s @ map (\<lambda>(i, tdue, args). args) due\<rparr>)"

datatype event = Fix coords | Elapse nat

fun react :: "host \<Rightarrow> (real \<Rightarrow> real) \<Rightarrow> nat \<Rightarrow> state \<Rightarrow> event \<Rightarrow> state" where
  "react h fl month s (Fix c) = updatePosition h fl month c s"
| "react h fl month s (Elapse d) = elapse d s"

definition run :: "host \<Rightarrow> (real \<Rightarrow> real) \<Rightarrow> nat \<Rightarrow> event list \<Rightarrow> state \<Rightarrow> state" where
  "run h fl month evs s = foldl (react h fl month) s evs"

subsection \<open>Frame Compositor\<close>

text \<open>Characters outside ASCII, as their UTF-8 bytes.\<close>

definition emoji_calendar :: string where
  "emoji_calendar = [CHR 0xF0, CHR 0x9F, CHR 0x93, CHR 0x85]"

definition emoji_pin :: string where
  "emoji_pin = [CHR 0xF0, CHR 0x9F, CHR 0x93, CHR 0x8D]"

definition emoji_camera :: string where
  "emoji_camera = [CHR 0xF0, CHR 0x9F, CHR 0x93, CHR 0xB8]"

definition emoji_floppy :: string where
  "emoji_floppy = [CHR 0xF0, CHR 0x9F, CHR 0x92, CHR 0xBE]"

definition emoji_inbox :: string where
  "emoji_inbox = [CHR 0xF0, CHR 0x9F, CHR 0x93, CHR 0xA5]"

definition plus_minus :: string where
  "plus_minus = [CHR 0xC2, CHR 0xB1]"

definition times_sign :: string where
  "times_sign = [CHR 0xC3, CHR 0x97]"

definition fresh_ctx :: ctx where
  "fresh_ctx = \<lparr> fillStyle = ''#000000'', font = ''10px sans-serif'', textAlign = ''start'',
                 textBaseline = ''alphabetic'', strokeStyle = ''#000000'', lineWidth = 1,
                 drawn = [] \<rparr>"

definition drawImage :: "real \<Rightarrow> real \<Rightarrow> real \<Rightarrow> real \<Rightarrow> ctx \<Rightarrow> ctx" where
  "drawImage x y w ht c = c\<lparr>drawn := drawn c @ [DrawImage x y w ht]\<rparr>"

definition fillRect :: "real \<Rightarrow> real \<Rightarrow> real \<Rightarrow> real \<Rightarrow> ctx \<Rightarrow> ctx" where
  "fillRect x y w ht c = c\<lparr>drawn := drawn c @ [FillRect (fillStyle c) x y w ht]\<rparr>"

definition fillText :: "string \<Rightarrow> real \<Rightarrow> real \<Rightarrow> ctx \<Rightarrow> ctx" where
  "fillText text x y c =
     c\<lparr>drawn := drawn c @ [FillText (font c) (fillStyle c) (textAlign c) (textBaseline c) text x y]\<rparr>"

text \<open>\<^verbatim>\<open>beginPath(); moveTo(x1, y1); lineTo(x2, y2); stroke()\<close>.\<close>

definition strokeLine :: "real \<Rightarrow> real \<Rightarrow> real \<Rightarrow> real \<Rightarrow> ctx \<Rightarrow> ctx" where
  "strokeLine x1 y1 x2 y2 c =
     c\<lparr>drawn := drawn c @ [StrokeLine (strokeStyle c) (lineWidth c) x1 y1 x2 y2]\<rparr>"

text \<open>The watermark block of \<^verbatim>\<open>addMetadataOverlay\<close>: the bar at the top, the label, the
  line under it.\<close>

definition watermark_banner :: "host \<Rightarrow> real \<Rightarrow> real \<Rightarrow> real \<Rightarrow> real \<Rightarrow> ctx \<Rightarrow> ctx" where
  "watermark_banner h width scale padding fontSize c =
     (let watermarkFontSize = fontSize * 2.5;
          watermarkPadding = padding * 1.5;
          watermarkBarHeight = watermarkFontSize * 1.8;
          c1 = fillRect 0 0 width watermarkBarHeight (c\<lparr>fillStyle := ''rgba(0, 0, 0, 0.7)''\<rparr>);
          c2 = c1\<lparr>font := ''bold '' @ num_str h watermarkFontSize @ ''px sans-serif'',
                  fillStyle := ''rgba(255, 255, 255, 0.95)'',
                  textAlign := ''center'', textBaseline := ''middle''\<rparr>;
          c3 = fillText (emoji_pin @ '' TraceCam'') (width / 2) (watermarkBarHeight / 2) c2;
          c4 = c3\<lparr>strokeStyle := ''rgba(16, 185, 129, 0.8)'', lineWidth := 3 * scale\<rparr>;
          c5 = strokeLine (width * 0.3) (watermarkBarHeight - 5) (width * 0.7)
                 (watermarkBarHeight - 5) c4
      in c5\<lparr>textAlign := ''left'', textBaseline := ''bottom''\<rparr>)"

definition addMetadataOverlay :: "host \<Rightarrow> capture_env \<Rightarrow> state \<Rightarrow> real \<Rightarrow> real \<Rightarrow> ctx \<Rightarrow> ctx" where
  "addMetadataOverlay h env s width height c =
     (let scale = height / 1080;
          padding = 20 * scale;
          fontSize = max 14 (18 * scale);
          lineHeight = fontSize * 1.6;
          bgHeight = lineHeight * 4;
          c1 = fillRect 0 (height - bgHeight) width bgHeight (c\<lparr>fillStyle := ''rgba(0, 0, 0, 0.6)''\<rparr>);
          c2 = c1\<lparr>font := num_str h fontSize @ ''px monospace'', fillStyle := ''white'',
                  textBaseline := ''bottom''\<rparr>;
          y = height - padding;
          (c3, y3) =
            (if timestampOnImage (settings s) then
               (let ca = fillText (emoji_calendar @ '' '' @ overlayLocalNow env @ '' ('' @ timeZone env @ '')'')
                           padding y c2;
                    cb = fillText (''UTC: '' @ overlayIsoNow env) padding (y - lineHeight) ca
                in (cb, y - lineHeight - lineHeight))
             else (c2, y));
          c4 =
            (case position s of
               Some p \<Rightarrow>
                 if coordsOnImage (settings s) then
                   fillText (emoji_pin @ '' '' @ toFixed h 6 (latitude p) @ '', '' @ toFixed h 6 (longitude p)
                             @ '' ('' @ plus_minus
                             @ (case accuracy p of
                                  None \<Rightarrow> ''?''
                                | Some a \<Rightarrow> if toFixed h 0 a = [] then ''?'' else toFixed h 0 a)
                             @ ''m)'')
                     padding y3 c3
                 else c3
             | None \<Rightarrow> c3)
      in if watermarkEnabled (settings s) then watermark_banner h width scale padding fontSize c4
         else c4)"

subsection \<open>Capture Orchestrator\<close>

text \<open>A truthy-or chain on numbers: \<^verbatim>\<open>a || b || c\<close>, where an absent value is \<open>0\<close>.\<close>

definition or_num :: "real \<Rightarrow> real \<Rightarrow> real" where
  "or_num a b = (if a \<noteq> 0 then a else b)"

definition make_photo :: "host \<Rightarrow> capture_env \<Rightarrow> state \<Rightarrow> canvas \<Rightarrow> photo" where
  "make_photo h env s cv =
     (let quality = (if fullResolution (settings s) then 1.0 else 0.85);
          imageData = toDataURL h cv quality;
          fileSizeKB = \<lfloor>real (length imageData * 3) / 4 / 1024 + 1 / 2\<rfloor>
      in \<lparr> photo_id = newPhotoId env,
           photo_sessionId = sessionId s,
           photo_imageData = imageData,
           photo_imageWidth = cwidth cv,
           photo_imageHeight = cheight cv,
           photo_fileSizeKB = fileSizeKB,
           photo_quality = (if quality = 1.0 then ''Full'' else ''High''),
           photo_timestamp = isoNow env,
           photo_timestampLocal = localNow env,
           photo_timezone = timeZone env,
           photo_location =
             (case position s of
                Some p \<Rightarrow>
                  Some \<lparr> loc_latitude = latitude p, loc_longitude = longitude p,
                         loc_accuracy = accuracy p, loc_altitude = altitude p,
                         loc_heading = heading p, loc_speed = speed p,
                         loc_dms = map_option li_dms (locationInfo s) \<rparr>
              | None \<Rightarrow> None),
           photo_address = addressText env,
           photo_locationDecipher =
             (case locationInfo s of
                Some li \<Rightarrow>
                  Some \<lparr> ld_hemisphere = hemisphere li, ld_locationType = locationType li,
                         ld_seasonHint = seasonHint li, ld_mapUrl = mapUrl li \<rparr>
              | None \<Rightarrow> None),
           photo_device = deviceInfo env,
           photo_settings = settings s,
           photo_projectName = projectName (settings s),
           photo_operatorName = operatorName (settings s) \<rparr>)"

text \<open>The compositing steps of \<^verbatim>\<open>capturePhoto\<close>: the canvas takes the negotiated
  resolution (which clears it), the frame is drawn, and the overlay is added under the
  guard of the source.\<close>

definition compose :: "host \<Rightarrow> capture_env \<Rightarrow> state \<Rightarrow> canvas" where
  "compose h env s =
     (let actualWidth = or_num (trackWidth env) (or_num (videoWidth env) 1920);
          actualHeight = or_num (trackHeight env) (or_num (videoHeight env) 1080);
          c0 = drawImage 0 0 actualWidth actualHeight fresh_ctx;
          c1 = (if timestampOnImage (settings s) \<or> coordsOnImage (settings s)
                then addMetadataOverlay h env s actualWidth actualHeight c0
                else c0)
      in \<lparr> cwidth = actualWidth, cheight = actualHeight, ops = drawn c1 \<rparr>)"

text \<open>\<^verbatim>\<open>downloadPhotoDirect\<close>: a link to the image data is clicked and a toast shown.\<close>

definition downloadPhotoDirect :: "photo \<Rightarrow> state \<Rightarrow> state" where
  "downloadPhotoDirect photo s =
     showToast (''Photo downloaded! '' @ emoji_inbox) ''success''
       (s\<lparr>downloads := downloads s @ [(photo_id photo @ ''.jpg'', photo_imageData photo)]\<rparr>)"

text \<open>The \<^verbatim>\<open>catch\<close> block of \<^verbatim>\<open>saveToDevice\<close>.\<close>

definition save_failed :: "step_result \<Rightarrow> state \<Rightarrow> state" where
  "save_failed r s =
     (if r = AbortError then showToast (''Photo captured! '' @ emoji_camera) ''success'' s
      else showToast ''Photo captured (saved to app)'' ''success'' s)"

text \<open>
  \<^verbatim>\<open>saveToDevice\<close>, up to the settling of its promise: the file picker if the platform
  has one, else the share sheet if the platform has one and accepts the file, else the
  direct download; an error of an awaited step goes to the \<^verbatim>\<open>catch\<close> block.
  \<^verbatim>\<open>capturePhoto\<close> does not await the call: the steps after the first \<^verbatim>\<open>await\<close> run
  in later turns of the event loop. They touch the toasts, the hand-offs and the downloads
  only.
\<close>

definition saveToDevice :: "platform \<Rightarrow> photo \<Rightarrow> state \<Rightarrow> state" where
  "saveToDevice pf photo s =
     (if hasSaveFilePicker pf then
        (let s1 = s\<lparr>deviceSaves := deviceSaves s @ [photo_id photo @ ''.jpg'']\<rparr>
         in case pickerSteps pf of
              Done \<Rightarrow> showToast (''Photo saved! '' @ emoji_floppy) ''success'' s1
            | r \<Rightarrow> save_failed r s1)
      else if hasShare pf then
        (case fetchStep pf of
           Done \<Rightarrow>
             if canShareFiles pf then
               (let s1 = s\<lparr>deviceSaves := deviceSaves s @ [photo_id photo @ ''.jpg'']\<rparr>
                in case shareStep pf of
                     Done \<Rightarrow> showToast (''Photo saved! '' @ emoji_camera) ''success'' s1
                   | r \<Rightarrow> save_failed r s1)
             else downloadPhotoDirect photo s
         | r \<Rightarrow> save_failed r s)
      else downloadPhotoDirect photo s)"

text \<open>
  \<^verbatim>\<open>capturePhoto\<close>. The function has no \<^verbatim>\<open>await\<close>, so it runs to its end in one
  turn, unless \<^verbatim>\<open>savePhotos\<close> throws: then the statements after the call are not run
  and the exception is the second component of the result. The call of \<^verbatim>\<open>saveToDevice\<close>
  is followed to the settling of its promise. The flash, the count badges and the
  vibration are not modelled.
\<close>

definition capturePhoto :: "host \<Rightarrow> policy \<Rightarrow> capture_env \<Rightarrow> state \<Rightarrow> state \<times> storage_error option" where
  "capturePhoto h pol env s =
     (if stream s = None then (showToast ''Camera not ready'' ''error'' s, None)
      else
        (let cv = compose h env s;
             photo = make_photo h env s cv;
             s1 = s\<lparr>the_canvas := cv, photos := photo # photos s\<rparr>;
             (s2, exn) = savePhotos pol s1
         in case exn of
              Some e \<Rightarrow> (s2, Some e)
            | None \<Rightarrow>
                (let s3 = addLog pol photo s2;
                     resInfo = num_str h (cwidth cv) @ times_sign @ num_str h (cheight cv)
                 in if autoSave (settings s3) then (saveToDevice (savePlatform env) photo s3, None)
                    else (showToast (''Photo captured! '' @ emoji_camera @ '' ('' @ resInfo @ '')'')
                            ''success'' s3, None))))"

subsection \<open>CSV export\<close>

definition headers :: "string list" where
  "headers = [''ID'', ''Timestamp (UTC)'', ''Timestamp (Local)'', ''Timezone'',
              ''Latitude'', ''Longitude'', ''Accuracy (m)'', ''Altitude (m)'',
              ''Address'', ''Session ID'', ''Project'', ''Operator'']"

text \<open>\<^verbatim>\<open>Array.prototype.join\<close> on strings.\<close>

fun join :: "string \<Rightarrow> string list \<Rightarrow> string" where
  "join sep [] = []"
| "join sep [x] = x"
| "join sep (x # y # ys) = x @ sep @ join sep (y # ys)"

text \<open>\<^verbatim>\<open>v || ''\<close> for a numeric field, as \<^verbatim>\<open>join\<close> then writes it: an absent value
  and a zero are falsy and give the empty string, any other number its decimal form.\<close>

definition num_cell :: "host \<Rightarrow> real option \<Rightarrow> string" where
  "num_cell h v = (case v of None \<Rightarrow> [] | Some x \<Rightarrow> if x = 0 then [] else num_str h x)"

text \<open>\<^verbatim>\<open>s || ''\<close> for a string.\<close>

definition str_cell :: "string \<Rightarrow> string" where
  "str_cell v = (if v = [] then [] else v)"

definition dquote :: char where
  "dquote = CHR 0x22"

text \<open>\<^verbatim>\<open>.replace(/"/g, '""')\<close>.\<close>

definition double_quotes :: "string \<Rightarrow> string" where
  "double_quotes v = concat (map (\<lambda>c. if c = dquote then [dquote, dquote] else [c]) v)"

definition csv_row :: "host \<Rightarrow> log \<Rightarrow> string list" where
  "csv_row h l =
     [log_id l,
      log_timestamp l,
      log_timestampLocal l,
      log_timezone l,
      num_cell h (log_latitude l),
      num_cell h (log_longitude l),
      num_cell h (log_accuracy l),
      num_cell h (log_altitude l),
      [dquote] @ double_quotes (str_cell (log_address l)) @ [dquote],
      log_sessionId l,
      str_cell (log_projectName l),
      str_cell (log_operatorName l)]"

definition csv_lines :: "host \<Rightarrow> log list \<Rightarrow> string list" where
  "csv_lines h ls = join '','' headers # map (\<lambda>r. join '','' r) (map (csv_row h) ls)"

text \<open>\<^verbatim>\<open>exportLogs\<close>; \<open>today\<close> is the date part of the current ISO time. The file is
  recorded in \<open>downloads\<close> with its name and its text.\<close>

definition exportLogs :: "host \<Rightarrow> string \<Rightarrow> state \<Rightarrow> state" where
  "exportLogs h today s =
     (if length (logs s) = 0 then showToast ''No logs to export'' ''error'' s
      else
        (let csv = join [CHR 0x0A] (csv_lines h (logs s));
             s1 = s\<lparr>downloads := downloads s @ [(''tracecam-logs-'' @ today @ ''.csv'', csv)]\<rparr>
         in showToast ''Logs exported!'' ''success'' s1))"

text \<open>
  A reader of one CSV line, not in the source: the usual reading of the format, against
  which the escaping is judged. A comma outside quotes ends a cell, a quote opens or closes
  a quoted stretch, and two quotes inside a quoted stretch are one quote character.
  The first argument says whether the reader is inside quotes, the second is the cell read
  so far.
\<close>

fun csv_cells :: "bool \<Rightarrow> string \<Rightarrow> string \<Rightarrow> string list" where
  "csv_cells q cur [] = [cur]"
| "csv_cells False cur (c # cs) =
     (if c = CHR '','' then cur # csv_cells False [] cs
      else if c = dquote then csv_cells True cur cs
      else csv_cells False (cur @ [c]) cs)"
| "csv_cells True cur [c] =
     (if c = dquote then [cur] else [cur @ [c]])"
| "csv_cells True cur (c # d # ds) =
     (if c = dquote then
        (if d = dquote then csv_cells True (cur @ [dquote]) ds
         else csv_cells False cur (d # ds))
      else csv_cells True (cur @ [c]) (d # ds))"

definition read_csv_line :: "string \<Rightarrow> string list" where
  "read_csv_line line = csv_cells False [] line"

text \<open>Splitting a text at a separator character, as a reader of the file finds its lines.\<close>

fun split_at :: "char \<Rightarrow> string \<Rightarrow> string \<Rightarrow> string list" where
  "split_at sep cur [] = [cur]"
| "split_at sep cur (c # cs) =
     (if c = sep then cur # split_at sep [] cs else split_at sep (cur @ [c]) cs)"

subsection \<open>Initial state and concrete inputs\<close>

text \<open>The \<^verbatim>\<open>state\<close> object as the module creates it, with an empty store, an idle timer
  queue and nothing yet done to the collaborators.\<close>

definition initial_state :: "string \<Rightarrow> state" where
  "initial_state sid =
     \<lparr> stream = None,
       position = None,
       photos = [],
       logs = [],
       sessionId = sid,
       settings = \<lparr> watermarkEnabled = False, coordsOnImage = True, timestampOnImage = True,
                    autoSave = True, fullResolution = True, showLocationDecipher = True,
                    projectName = [], operatorName = [] \<rparr>,
       locationInfo = None,
       geocodeTimeout = None,
       storage = \<lparr> items = Map.empty, attempts = [] \<rparr>,
       the_canvas = \<lparr> cwidth = 300, cheight = 150, ops = [] \<rparr>,
       timers = \<lparr> now = 0, pending = [], nextId = 1 \<rparr>,
       toasts = [],
       deviceSaves = [],
       requests = [],
       downloads = [] \<rparr>"

text \<open>A store that accepts every write, and one whose quota is reached as soon as more than
  \<open>n\<close> photos are written (logs are small and always fit).\<close>

definition accept_all :: policy where
  "accept_all its k v = None"

definition quota_of :: "nat \<Rightarrow> policy" where
  "quota_of n its k v =
     (case v of
        PhotosJSON ps \<Rightarrow> if length ps > n then Some QuotaExceededError else None
      | LogsJSON ls \<Rightarrow> None)"

text \<open>A browser whose formatting functions return fixed strings, and the readings of one
  capture on a 1920 x 1080 camera, on a platform with a file picker.\<close>

definition plain_host :: host where
  "plain_host = \<lparr> num_str = (\<lambda>x. ''n''), toFixed = (\<lambda>f x. ''n''), toDataURL = (\<lambda>cv q. ''data:image/jpeg;base64,'') \<rparr>"

definition env_of :: "string \<Rightarrow> capture_env" where
  "env_of pid =
     \<lparr> trackWidth = 1920, trackHeight = 1080, videoWidth = 1920, videoHeight = 1080,
       newPhotoId = pid, isoNow = ''2024-05-01T10:00:00.000Z'', localNow = ''5/1/2024, 10:00:00 AM'',
       timeZone = ''UTC'', overlayIsoNow = ''2024-05-01T10:00:00.000Z'',
       overlayLocalNow = ''5/1/2024, 10:00:00 AM'', addressText = ''Main Street'',
       deviceInfo = ''Linux'',
       savePlatform = \<lparr> hasSaveFilePicker = True, pickerSteps = Done, hasShare = False,
                        fetchStep = Done, canShareFiles = False, shareStep = Done \<rparr> \<rparr>"

definition live :: "state \<Rightarrow> state" where
  "live s = s\<lparr>stream := Some ()\<rparr>"

definition watermark_on :: "state \<Rightarrow> state" where
  "watermark_on s = s\<lparr>settings := (settings s)\<lparr>watermarkEnabled := True\<rparr>\<rparr>"

definition watermark_only :: "state \<Rightarrow> state" where
  "watermark_only s =
     s\<lparr>settings := (settings s)\<lparr>watermarkEnabled := True, timestampOnImage := False,
                                   coordsOnImage := False\<rparr>\<rparr>"

definition sample_log :: log where
  "sample_log =
     \<lparr> log_id = ''IMG-A-1'', log_timestamp = ''2024-05-01T10:00:00.000Z'',
       log_timestampLocal = ''5/1/2024 10:00:00'', log_timezone = ''UTC'',
       log_latitude = Some 12.5, log_longitude = Some 98.25, log_accuracy = Some 5,
       log_altitude = None, log_address = ''Main Street'', log_sessionId = ''TC-A-1'',
       log_projectName = ''Survey'', log_operatorName = ''Kim'' \<rparr>"

text \<open>The climate bands in the words of the specification, and the band a label of the code
  stands for.\<close>

definition spec_band :: "real \<Rightarrow> string" where
  "spec_band lat =
     (if \<bar>lat\<bar> \<ge> 66.5 then ''polar''
      else if 23.5 \<le> \<bar>lat\<bar> \<and> \<bar>lat\<bar> < 66.5 then ''temperate''
      else ''tropical'')"

definition band_of_label :: "string \<Rightarrow> string" where
  "band_of_label l =
     (if l = ''Arctic region'' \<or> l = ''Antarctic region'' then ''polar''
      else if l = ''Northern temperate zone'' \<or> l = ''Southern temperate zone'' then ''temperate''
      else if l = ''Tropical zone'' then ''tropical''
      else ''unknown'')"

text \<open>The three drawing calls of the watermark banner for a given scale and font size, the
  banner on a frame of a given size, and whether the banner's calls are the last ones made
  on a canvas.\<close>

definition banner_calls :: "host \<Rightarrow> real \<Rightarrow> real \<Rightarrow> real \<Rightarrow> draw_op list" where
  "banner_calls h width scale fontSize =
     [FillRect ''rgba(0, 0, 0, 0.7)'' 0 0 width (fontSize * 2.5 * 1.8),
      FillText (''bold '' @ num_str h (fontSize * 2.5) @ ''px sans-serif'')
        ''rgba(255, 255, 255, 0.95)'' ''center'' ''middle'' (emoji_pin @ '' TraceCam'')
        (width / 2) (fontSize * 2.5 * 1.8 / 2),
      StrokeLine ''rgba(16, 185, 129, 0.8)'' (3 * scale) (width * 0.3) (fontSize * 2.5 * 1.8 - 5)
        (width * 0.7) (fontSize * 2.5 * 1.8 - 5)]"

definition banner_ops :: "host \<Rightarrow> real \<Rightarrow> real \<Rightarrow> draw_op list" where
  "banner_ops h width height = banner_calls h width (height / 1080) (max 14 (18 * (height / 1080)))"

definition has_banner :: "host \<Rightarrow> canvas \<Rightarrow> bool" where
  "has_banner h cv =
     (drop (length (ops cv) - 3) (ops cv) = banner_ops h (cwidth cv) (cheight cv))"

text \<open>A series of captures, one per reading of the browser, each on the state the previous
  one left (an exception of one capture ends that capture only).\<close>

fun captures :: "host \<Rightarrow> policy \<Rightarrow> capture_env list \<Rightarrow> state \<Rightarrow> state" where
  "captures h pol [] s = s"
| "captures h pol (e # es) s = captures h pol es (fst (capturePhoto h pol e s))"

text \<open>The twelve values of a log as a reader of the export should get them back: the row
  of \<^verbatim>\<open>exportLogs\<close> before any escaping.\<close>

definition cell_values :: "host \<Rightarrow> log \<Rightarrow> string list" where
  "cell_values h l =
     [log_id l, log_timestamp l, log_timestampLocal l, log_timezone l,
      num_cell h (log_latitude l), num_cell h (log_longitude l),
      num_cell h (log_accuracy l), num_cell h (log_altitude l),
      log_address l, log_sessionId l, log_projectName l, log_operatorName l]"

text \<open>The text cells that \<^verbatim>\<open>exportLogs\<close> writes as they are.\<close>

definition raw_cells :: "host \<Rightarrow> log \<Rightarrow> string list" where
  "raw_cells h l =
     [log_id l, log_timestamp l, log_timestampLocal l, log_timezone l,
      num_cell h (log_latitude l), num_cell h (log_longitude l),
      num_cell h (log_accuracy l), num_cell h (log_altitude l),
      log_sessionId l, log_projectName l, log_operatorName l]"

definition plain_text :: "string \<Rightarrow> bool" where
  "plain_text v = (CHR '','' \<notin> set v \<and> dquote \<notin> set v)"

text \<open>A log whose project name has a comma, and the log of a capture in a locale whose
  date format has one (\<^verbatim>\<open>toLocaleString\<close> in \<^verbatim>\<open>en-US\<close>).\<close>

definition comma_log :: log where
  "comma_log = sample_log\<lparr>log_projectName := ''Roads, North''\<rparr>"

definition en_US_log :: log where
  "en_US_log = sample_log\<lparr>log_timestampLocal := ''5/1/2024, 10:00:00 AM''\<rparr>"

definition quoted_address_log :: log where
  "quoted_address_log = sample_log\<lparr>log_address := ''12 '' @ [dquote] @ ''Old'' @ [dquote] @ '' Road, Leeds''\<rparr>"

text \<open>A photo, and a session that holds sixty of them.\<close>

definition sample_photo :: photo where
  "sample_photo =
     make_photo plain_host (env_of ''IMG-A-1'') (initial_state ''TC-A-1'')
       (compose plain_host (env_of ''IMG-A-1'') (initial_state ''TC-A-1''))"

definition sixty_photos :: state where
  "sixty_photos = (live (initial_state ''TC-A-1''))\<lparr>photos := replicate 60 sample_photo\<rparr>"

definition one_log :: state where
  "one_log = (initial_state ''TC-A-1'')\<lparr>logs := [sample_log]\<rparr>"

text \<open>Two position fixes.\<close>

definition fix_a :: coords where
  "fix_a = \<lparr> latitude = 12.345678, longitude = 98.765432, accuracy = Some 5, altitude = None,
              heading = None, speed = None \<rparr>"

definition fix_b :: coords where
  "fix_b = \<lparr> latitude = 12.3457, longitude = 98.7655, accuracy = Some 4, altitude = None,
              heading = None, speed = None \<rparr>"

text \<open>The state a capture leaves when the store is full: the photo write and its retry are
  both rejected for quota.\<close>

definition aborted_capture :: state where
  "aborted_capture =
     fst (capturePhoto plain_host (quota_of 0) (env_of ''IMG-A-1'') (live (initial_state ''TC-A-1'')))"

section \<open>Properties\<close>

subsection \<open>Capture without a camera stream\<close>

text \<open>
  Claim C3. A capture triggered while the camera stream is null fails at once: the only
  effect is the error toast "Camera not ready"; no exception leaves the function, and the
  photo collection, the log collection and the store are as they were.
\<close>

theorem capture_without_stream:
  assumes "stream s = None"
  shows "capturePhoto h pol env s
           = (s\<lparr>toasts := toasts s @ [(''Camera not ready'', ''error'')]\<rparr>, None)
       \<and> photos (fst (capturePhoto h pol env s)) = photos s
       \<and> logs (fst (capturePhoto h pol env s)) = logs s
       \<and> storage (fst (capturePhoto h pol env s)) = storage s"
  using assms by (simp add: capturePhoto_def showToast_def)

theorem capture_without_stream_witness:
  "stream (initial_state ''TC-A-1'') = None
   \<and> photos (fst (capturePhoto plain_host accept_all (env_of ''IMG-A-1'') (initial_state ''TC-A-1''))) = []
   \<and> logs (fst (capturePhoto plain_host accept_all (env_of ''IMG-A-1'') (initial_state ''TC-A-1''))) = []
   \<and> toasts (fst (capturePhoto plain_host accept_all (env_of ''IMG-A-1'') (initial_state ''TC-A-1'')))
       = [(''Camera not ready'', ''error'')]"
  using capture_without_stream [of "initial_state ''TC-A-1''" plain_host accept_all "env_of ''IMG-A-1''"]
  by (simp add: initial_state_def)

subsection \<open>Climate zone\<close>

text \<open>Away from the Tropic of Capricorn the label of the code is the band of the
  specification, so that the zone of \<open>- x\<close> mirrors the zone of \<open>x\<close>.\<close>

lemma band_except_capricorn:
  "lat \<noteq> - 23.5 \<Longrightarrow> band_of_label (locationType_of lat) = spec_band lat"
  by (auto simp add: band_of_label_def locationType_of_def spec_band_def)

lemma spec_band_mirror: "spec_band (- lat) = spec_band lat"
  by (simp add: spec_band_def)

lemma band_mirror_except_tropics:
  assumes "\<bar>lat\<bar> \<noteq> 23.5"
  shows "band_of_label (locationType_of (- lat)) = band_of_label (locationType_of lat)"
proof -
  from assms have "lat \<noteq> - 23.5" and "- lat \<noteq> - 23.5" by auto
  then show ?thesis
    using band_except_capricorn [of lat] band_except_capricorn [of "- lat"]
    by (simp add: spec_band_mirror)
qed

text \<open>
  Claim C7. The claim asks that latitude \<open>- 23.5\<close> be temperate, as \<open>23.5\<close> is. In the code
  the test for the tropical zone comes before the test for the southern temperate zone and
  both include \<open>- 23.5\<close>: the code labels \<open>- 23.5\<close> tropical and \<open>23.5\<close> northern temperate.
\<close>

theorem capricorn_is_tropical:
  "locationType_of (- 23.5) = ''Tropical zone''
   \<and> locationType_of 23.5 = ''Northern temperate zone''
   \<and> band_of_label (locationType_of (- 23.5)) \<noteq> band_of_label (locationType_of 23.5)
   \<and> band_of_label (locationType_of (- 23.5)) \<noteq> spec_band (- 23.5)"
  by (simp add: band_of_label_def locationType_of_def spec_band_def)

subsection \<open>Watermark banner\<close>

lemma drawn_watermark_banner:
  "drawn (watermark_banner h width scale padding fontSize c)
   = drawn c @ banner_calls h width scale fontSize"
  by (simp add: watermark_banner_def banner_calls_def fillRect_def fillText_def strokeLine_def Let_def)

lemma drawn_addMetadataOverlay_watermark:
  "watermarkEnabled (settings s) \<Longrightarrow>
   \<exists>pre. drawn (addMetadataOverlay h env s width height c) = pre @ banner_ops h width height"
  unfolding addMetadataOverlay_def banner_ops_def Let_def
  by (simp add: drawn_watermark_banner split: prod.splits)

lemma length_banner_ops: "length (banner_ops h w ht) = 3"
  by (simp add: banner_ops_def banner_calls_def)

text \<open>
  Claim C8, as stated, fails: with \<open>watermarkEnabled\<close> set and both \<open>timestampOnImage\<close> and
  \<open>coordsOnImage\<close> unset, \<^verbatim>\<open>capturePhoto\<close> does not call \<^verbatim>\<open>addMetadataOverlay\<close>, and
  the composited image is the frame alone.
\<close>

theorem watermark_alone_counterexample:
  "watermarkEnabled (settings (watermark_only (live (initial_state ''TC-A-1''))))
   \<and> \<not> has_banner plain_host
         (compose plain_host (env_of ''IMG-A-1'') (watermark_only (live (initial_state ''TC-A-1''))))
   \<and> ops (compose plain_host (env_of ''IMG-A-1'') (watermark_only (live (initial_state ''TC-A-1''))))
      = [DrawImage 0 0 1920 1080]"
  by (simp add: watermark_only_def live_def initial_state_def has_banner_def compose_def Let_def
      drawImage_def fresh_ctx_def banner_ops_def banner_calls_def env_of_def or_num_def)

text \<open>
  Claim C8, amended. When \<open>watermarkEnabled\<close> is set and at least one of \<open>timestampOnImage\<close>
  and \<open>coordsOnImage\<close> is set, the composited image ends with the banner (the bar, the bold
  label at 2.5 times the font size of the metadata lines, the accent line). When both are
  unset, the composited image is the unmodified frame and carries no banner, whatever
  \<open>watermarkEnabled\<close> is.
\<close>

theorem watermark_needs_overlay_flag:
  "(watermarkEnabled (settings s) \<and> (timestampOnImage (settings s) \<or> coordsOnImage (settings s))
      \<longrightarrow> has_banner h (compose h env s))
   \<and> (\<not> timestampOnImage (settings s) \<and> \<not> coordsOnImage (settings s)
      \<longrightarrow> ops (compose h env s)
            = [DrawImage 0 0 (cwidth (compose h env s)) (cheight (compose h env s))]
          \<and> \<not> has_banner h (compose h env s))"
proof (intro conjI impI)
  assume a: "watermarkEnabled (settings s) \<and> (timestampOnImage (settings s) \<or> coordsOnImage (settings s))"
  let ?w = "or_num (trackWidth env) (or_num (videoWidth env) 1920)"
  let ?ht = "or_num (trackHeight env) (or_num (videoHeight env) 1080)"
  from a obtain pre where
    p: "drawn (addMetadataOverlay h env s ?w ?ht (drawImage 0 0 ?w ?ht fresh_ctx))
          = pre @ banner_ops h ?w ?ht"
    using drawn_addMetadataOverlay_watermark by blast
  from a p show "has_banner h (compose h env s)"
    by (simp add: has_banner_def compose_def Let_def length_banner_ops)
next
  assume b: "\<not> timestampOnImage (settings s) \<and> \<not> coordsOnImage (settings s)"
  then show "ops (compose h env s)
               = [DrawImage 0 0 (cwidth (compose h env s)) (cheight (compose h env s))]"
    by (simp add: compose_def Let_def drawImage_def fresh_ctx_def)
  from b show "\<not> has_banner h (compose h env s)"
    by (simp add: has_banner_def compose_def Let_def drawImage_def fresh_ctx_def banner_ops_def
        banner_calls_def)
qed

theorem watermark_needs_overlay_flag_witness:
  "watermarkEnabled (settings (watermark_on (initial_state ''TC-A-1'')))
   \<and> timestampOnImage (settings (watermark_on (initial_state ''TC-A-1'')))
   \<and> has_banner plain_host
       (compose plain_host (env_of ''IMG-A-1'') (watermark_on (initial_state ''TC-A-1'')))
   \<and> \<not> timestampOnImage (settings (watermark_only (initial_state ''TC-A-1'')))
   \<and> \<not> coordsOnImage (settings (watermark_only (initial_state ''TC-A-1'')))
   \<and> \<not> has_banner plain_host
         (compose plain_host (env_of ''IMG-A-1'') (watermark_only (initial_state ''TC-A-1'')))"
  using watermark_needs_overlay_flag [of "watermark_on (initial_state ''TC-A-1'')" plain_host "env_of ''IMG-A-1''"]
    watermark_needs_overlay_flag [of "watermark_only (initial_state ''TC-A-1'')" plain_host "env_of ''IMG-A-1''"]
  by (simp add: watermark_on_def watermark_only_def initial_state_def)

subsection \<open>CSV export\<close>

text \<open>
  Claim C10. In a row of the export a latitude, longitude, accuracy or altitude that is
  exactly 0 is written as the empty cell, and the row is the very row of a log in which
  that field is absent (a capture without a position fix).
\<close>

theorem zero_cell_is_empty:
  "csv_row h (l\<lparr>log_latitude := Some 0\<rparr>) ! 4 = []
   \<and> csv_row h (l\<lparr>log_longitude := Some 0\<rparr>) ! 5 = []
   \<and> csv_row h (l\<lparr>log_accuracy := Some 0\<rparr>) ! 6 = []
   \<and> csv_row h (l\<lparr>log_altitude := Some 0\<rparr>) ! 7 = []
   \<and> csv_row h (l\<lparr>log_latitude := Some 0\<rparr>) = csv_row h (l\<lparr>log_latitude := None\<rparr>)
   \<and> csv_row h (l\<lparr>log_longitude := Some 0\<rparr>) = csv_row h (l\<lparr>log_longitude := None\<rparr>)
   \<and> csv_row h (l\<lparr>log_accuracy := Some 0\<rparr>) = csv_row h (l\<lparr>log_accuracy := None\<rparr>)
   \<and> csv_row h (l\<lparr>log_altitude := Some 0\<rparr>) = csv_row h (l\<lparr>log_altitude := None\<rparr>)"
  by (simp add: csv_row_def num_cell_def)

subsection \<open>Record Store\<close>

lemma PHOTOS_LOGS_KEY_neq: "PHOTOS_KEY \<noteq> LOGS_KEY" "LOGS_KEY \<noteq> PHOTOS_KEY"
  by (simp_all add: PHOTOS_KEY_def LOGS_KEY_def)

lemma savePhotos_accepted:
  assumes "pol (items (storage s)) PHOTOS_KEY (PhotosJSON (take 50 (photos s))) = None"
  shows "savePhotos pol s
         = (s\<lparr>storage := \<lparr>items = (items (storage s))(PHOTOS_KEY \<mapsto> PhotosJSON (take 50 (photos s))),
                          attempts = attempts (storage s) @ [(PHOTOS_KEY, PhotosJSON (take 50 (photos s)))]\<rparr>\<rparr>, None)"
  using assms by (simp add: savePhotos_def setItem_def Let_def)

lemma savePhotos_quota:
  assumes "pol (items (storage s)) PHOTOS_KEY (PhotosJSON (take 50 (photos s))) = Some QuotaExceededError"
  shows "savePhotos pol s
         = (let r2 = pol (items (storage s)) PHOTOS_KEY (PhotosJSON (take 20 (photos s)));
                at2 = attempts (storage s) @ [(PHOTOS_KEY, PhotosJSON (take 50 (photos s))),
                                              (PHOTOS_KEY, PhotosJSON (take 20 (photos s)))]
            in (s\<lparr>photos := take 20 (photos s),
                  storage := \<lparr>items = (if r2 = None then (items (storage s))(PHOTOS_KEY \<mapsto> PhotosJSON (take 20 (photos s)))
                                        else items (storage s)),
                              attempts = at2\<rparr>\<rparr>, r2))"
  using assms by (simp add: savePhotos_def setItem_def Let_def split: option.splits)

lemma savePhotos_other:
  assumes "pol (items (storage s)) PHOTOS_KEY (PhotosJSON (take 50 (photos s))) = Some OtherStorageError"
  shows "savePhotos pol s
         = (s\<lparr>storage := \<lparr>items = items (storage s),
                          attempts = attempts (storage s) @ [(PHOTOS_KEY, PhotosJSON (take 50 (photos s)))]\<rparr>\<rparr>, None)"
  using assms by (simp add: savePhotos_def setItem_def Let_def)

text \<open>The variant of \<^verbatim>\<open>src/app.js\<close> writes the first 50 photos once and never retries,
  whatever the store answers.\<close>

lemma savePhotos_v0_single_write:
  "photo_writes (fst (savePhotos_v0 pol s)) = photo_writes s @ [PhotosJSON (take 50 (photos s))]"
  "photos (fst (savePhotos_v0 pol s)) = photos s"
  "snd (savePhotos_v0 pol s) = None"
  by (simp_all add: savePhotos_v0_def setItem_def Let_def photo_writes_def split: option.splits)

lemma savePhotos_keeps:
  "logs (fst (savePhotos pol s)) = logs s"
  "stream (fst (savePhotos pol s)) = stream s"
  "settings (fst (savePhotos pol s)) = settings s"
  "sessionId (fst (savePhotos pol s)) = sessionId s"
  "position (fst (savePhotos pol s)) = position s"
  "locationInfo (fst (savePhotos pol s)) = locationInfo s"
  "items (storage (fst (savePhotos pol s))) LOGS_KEY = items (storage s) LOGS_KEY"
  by (simp_all add: savePhotos_def setItem_def Let_def PHOTOS_LOGS_KEY_neq
      split: option.splits prod.splits)

lemma savePhotos_head:
  "photos s = p # ps \<Longrightarrow> \<exists>qs. photos (fst (savePhotos pol s)) = p # qs"
  by (simp add: savePhotos_def setItem_def Let_def split: option.splits prod.splits)

lemma addLog_fields:
  "logs (addLog pol p s) = make_log p # logs s"
  "photos (addLog pol p s) = photos s"
  "stream (addLog pol p s) = stream s"
  "settings (addLog pol p s) = settings s"
  "sessionId (addLog pol p s) = sessionId s"
  "position (addLog pol p s) = position s"
  "locationInfo (addLog pol p s) = locationInfo s"
  "items (storage (addLog pol p s)) PHOTOS_KEY = items (storage s) PHOTOS_KEY"
  by (simp_all add: addLog_def saveLogs_def setItem_def Let_def PHOTOS_LOGS_KEY_neq
      split: option.splits prod.splits)

lemma addLog_persisted:
  "pol (items (storage s)) LOGS_KEY (LogsJSON (make_log p # logs s)) = None \<Longrightarrow>
   persisted_logs (addLog pol p s) = Some (make_log p # logs s)"
  by (simp add: addLog_def saveLogs_def setItem_def Let_def persisted_logs_def)

lemma make_log_ids:
  "log_id (make_log p) = photo_id p" "log_sessionId (make_log p) = photo_sessionId p"
  by (simp_all add: make_log_def)

lemma make_photo_ids:
  "photo_id (make_photo h env s cv) = newPhotoId env"
  "photo_sessionId (make_photo h env s cv) = sessionId s"
  by (simp_all add: make_photo_def Let_def)

lemma finish_fields:
  "logs (saveToDevice pf p s) = logs s" "photos (saveToDevice pf p s) = photos s"
  "storage (saveToDevice pf p s) = storage s" "stream (saveToDevice pf p s) = stream s"
  "settings (saveToDevice pf p s) = settings s" "sessionId (saveToDevice pf p s) = sessionId s"
  "logs (showToast m t s) = logs s" "photos (showToast m t s) = photos s"
  "storage (showToast m t s) = storage s" "stream (showToast m t s) = stream s"
  "settings (showToast m t s) = settings s" "sessionId (showToast m t s) = sessionId s"
  by (simp_all add: saveToDevice_def downloadPhotoDirect_def save_failed_def showToast_def Let_def
      split: step_result.splits)

text \<open>A capture that runs to its end.\<close>

lemma capture_completed:
  assumes live: "stream s \<noteq> None" and ret: "snd (capturePhoto h pol env s) = None"
  shows "logs (fst (capturePhoto h pol env s))
           = make_log (make_photo h env s (compose h env s)) # logs s"
    and "\<exists>qs. photos (fst (capturePhoto h pol env s)) = make_photo h env s (compose h env s) # qs"
proof -
  let ?p = "make_photo h env s (compose h env s)"
  let ?s1 = "s\<lparr>the_canvas := compose h env s, photos := ?p # photos s\<rparr>"
  obtain s2 exn where sp: "savePhotos pol ?s1 = (s2, exn)" by (cases "savePhotos pol ?s1")
  from live ret sp have exn: "exn = None"
    by (simp add: capturePhoto_def Let_def split: option.splits if_splits)
  from sp have s2: "s2 = fst (savePhotos pol ?s1)" by simp
  have l2: "logs s2 = logs s" unfolding s2 by (simp add: savePhotos_keeps)
  obtain qs where p2: "photos s2 = ?p # qs"
    unfolding s2 using savePhotos_head [of ?s1 ?p "photos s" pol] by auto
  from live sp exn l2 show "logs (fst (capturePhoto h pol env s)) = make_log ?p # logs s"
    by (simp add: capturePhoto_def Let_def addLog_fields finish_fields)
  from live sp exn p2 show "\<exists>qs. photos (fst (capturePhoto h pol env s)) = ?p # qs"
    by (simp add: capturePhoto_def Let_def addLog_fields finish_fields)
qed

text \<open>A capture that \<^verbatim>\<open>savePhotos\<close> aborts.\<close>

lemma capture_aborted:
  assumes live: "stream s \<noteq> None" and thr: "snd (capturePhoto h pol env s) = Some e"
  shows "logs (fst (capturePhoto h pol env s)) = logs s"
    and "\<exists>qs. photos (fst (capturePhoto h pol env s)) = make_photo h env s (compose h env s) # qs"
proof -
  let ?p = "make_photo h env s (compose h env s)"
  let ?s1 = "s\<lparr>the_canvas := compose h env s, photos := ?p # photos s\<rparr>"
  obtain s2 exn where sp: "savePhotos pol ?s1 = (s2, exn)" by (cases "savePhotos pol ?s1")
  from live thr sp have exn: "exn = Some e"
    by (simp add: capturePhoto_def Let_def split: option.splits if_splits)
  from sp have s2: "s2 = fst (savePhotos pol ?s1)" by simp
  have l2: "logs s2 = logs s" unfolding s2 by (simp add: savePhotos_keeps)
  obtain qs where p2: "photos s2 = ?p # qs"
    unfolding s2 using savePhotos_head [of ?s1 ?p "photos s" pol] by auto
  from live sp exn l2 show "logs (fst (capturePhoto h pol env s)) = logs s"
    by (simp add: capturePhoto_def Let_def)
  from live sp exn p2 show "\<exists>qs. photos (fst (capturePhoto h pol env s)) = ?p # qs"
    by (simp add: capturePhoto_def Let_def)
qed

lemma capture_accept_all:
  assumes live: "stream s \<noteq> None"
  shows "snd (capturePhoto h accept_all env s) = None"
    and "photos (fst (capturePhoto h accept_all env s)) = make_photo h env s (compose h env s) # photos s"
    and "persisted_photos (fst (capturePhoto h accept_all env s))
           = Some (take 50 (make_photo h env s (compose h env s) # photos s))"
    and "persisted_logs (fst (capturePhoto h accept_all env s))
           = Some (make_log (make_photo h env s (compose h env s)) # logs s)"
    and "stream (fst (capturePhoto h accept_all env s)) = stream s"
proof -
  let ?p = "make_photo h env s (compose h env s)"
  let ?s1 = "s\<lparr>the_canvas := compose h env s, photos := ?p # photos s\<rparr>"
  have sp: "savePhotos accept_all ?s1
         = (?s1\<lparr>storage := \<lparr>items = (items (storage ?s1))(PHOTOS_KEY \<mapsto> PhotosJSON (take 50 (photos ?s1))),
                          attempts = attempts (storage ?s1) @ [(PHOTOS_KEY, PhotosJSON (take 50 (photos ?s1)))]\<rparr>\<rparr>, None)"
    by (rule savePhotos_accepted) (simp add: accept_all_def)
  from live show "snd (capturePhoto h accept_all env s) = None"
    by (simp add: capturePhoto_def Let_def sp)
  from live show "photos (fst (capturePhoto h accept_all env s)) = ?p # photos s"
    by (simp add: capturePhoto_def Let_def sp addLog_fields finish_fields)
  from live show "persisted_photos (fst (capturePhoto h accept_all env s)) = Some (take 50 (?p # photos s))"
    by (simp add: capturePhoto_def Let_def sp persisted_photos_def addLog_fields finish_fields)
  from live show "persisted_logs (fst (capturePhoto h accept_all env s)) = Some (make_log ?p # logs s)"
    by (simp add: capturePhoto_def Let_def sp finish_fields addLog_persisted accept_all_def
        persisted_logs_def [of "saveToDevice _ _ _"] persisted_logs_def [of "showToast _ _ _"]
        persisted_logs_def [symmetric])
  from live show "stream (fst (capturePhoto h accept_all env s)) = stream s"
    by (simp add: capturePhoto_def Let_def sp addLog_fields finish_fields)
qed

lemma captures_accept_all:
  assumes "stream s \<noteq> None"
  shows "stream (captures h accept_all es s) \<noteq> None
       \<and> map photo_id (photos (captures h accept_all es s)) = rev (map newPhotoId es) @ map photo_id (photos s)
       \<and> map log_id (logs (captures h accept_all es s)) = rev (map newPhotoId es) @ map log_id (logs s)
       \<and> (es \<noteq> [] \<longrightarrow>
            persisted_photos (captures h accept_all es s) = Some (take 50 (photos (captures h accept_all es s)))
          \<and> persisted_logs (captures h accept_all es s) = Some (logs (captures h accept_all es s)))"
  using assms
proof (induction es arbitrary: s)
  case Nil
  then show ?case by simp
next
  case (Cons e es)
  let ?s' = "fst (capturePhoto h accept_all e s)"
  note c = capture_accept_all [OF Cons.prems, of h e]
  have live': "stream ?s' \<noteq> None" using c(5) Cons.prems by simp
  have lg: "logs ?s' = make_log (make_photo h e s (compose h e s)) # logs s"
    using capture_completed(1) [OF Cons.prems c(1)] .
  note ih = Cons.IH [OF live']
  show ?case
  proof (cases "es = []")
    case True
    then show ?thesis using c lg live' by (simp add: make_photo_ids make_log_ids)
  next
    case False
    then show ?thesis using ih c lg by (simp add: make_photo_ids make_log_ids)
  qed
qed


lemma saveLogs_whole:
  "attempts (storage (saveLogs pol s)) = attempts (storage s) @ [(LOGS_KEY, LogsJSON (logs s))]"
  "logs (saveLogs pol s) = logs s"
  by (simp_all add: saveLogs_def setItem_def Let_def split: option.splits)

lemma capture_completed_last_write:
  assumes live: "stream s \<noteq> None" and ret: "snd (capturePhoto h pol env s) = None"
  shows "last (attempts (storage (fst (capturePhoto h pol env s))))
           = (LOGS_KEY, LogsJSON (logs (fst (capturePhoto h pol env s))))"
proof -
  let ?p = "make_photo h env s (compose h env s)"
  let ?s1 = "s\<lparr>the_canvas := compose h env s, photos := ?p # photos s\<rparr>"
  obtain s2 exn where sp: "savePhotos pol ?s1 = (s2, exn)" by (cases "savePhotos pol ?s1")
  from live ret sp have exn: "exn = None"
    by (simp add: capturePhoto_def Let_def split: option.splits if_splits)
  from live sp exn show ?thesis
    by (simp add: capturePhoto_def Let_def finish_fields addLog_def saveLogs_whole)
qed

text \<open>A capture on a live stream that runs to its end appends the photo at the head of the
  photo collection and, in the same capture, a log with the photo's id and session id at
  the head of the log collection; the write of the logs that follows is the last write of
  the capture and holds the whole log collection, with no cap.\<close>

lemma completed_capture_logs:
  assumes "stream s \<noteq> None" and "snd (capturePhoto h pol env s) = None"
  shows "photos (fst (capturePhoto h pol env s)) \<noteq> []
       \<and> photo_id (hd (photos (fst (capturePhoto h pol env s)))) = newPhotoId env
       \<and> photo_sessionId (hd (photos (fst (capturePhoto h pol env s)))) = sessionId s
       \<and> logs (fst (capturePhoto h pol env s))
           = make_log (hd (photos (fst (capturePhoto h pol env s)))) # logs s
       \<and> log_id (hd (logs (fst (capturePhoto h pol env s))))
           = photo_id (hd (photos (fst (capturePhoto h pol env s))))
       \<and> log_sessionId (hd (logs (fst (capturePhoto h pol env s))))
           = photo_sessionId (hd (photos (fst (capturePhoto h pol env s))))
       \<and> last (attempts (storage (fst (capturePhoto h pol env s))))
           = (LOGS_KEY, LogsJSON (logs (fst (capturePhoto h pol env s))))"
proof -
  let ?p = "make_photo h env s (compose h env s)"
  from capture_completed(2) [OF assms] obtain qs
    where ph: "photos (fst (capturePhoto h pol env s)) = ?p # qs" by blast
  have lg: "logs (fst (capturePhoto h pol env s)) = make_log ?p # logs s"
    by (rule capture_completed(1) [OF assms])
  show ?thesis
    using ph lg capture_completed_last_write [OF assms]
    by (simp add: make_photo_ids make_log_ids)
qed

lemma aborted_capture_state:
  "stream aborted_capture = Some ()"
  "map photo_id (photos aborted_capture) = [''IMG-A-1'']"
  "logs aborted_capture = []"
  "persisted_logs aborted_capture = None"
  "persisted_photos aborted_capture = None"
  "length (photos aborted_capture) = 1"
  by (simp_all add: aborted_capture_def capturePhoto_def savePhotos_def setItem_def Let_def
      live_def initial_state_def quota_of_def make_photo_def env_of_def persisted_logs_def
      persisted_photos_def)

text \<open>
  Claim C1. The claim holds for every capture that runs to its end, and the log write is
  never capped. It fails when the store rejects the photo write for quota and rejects the
  retry as well: the retry stands in the \<^verbatim>\<open>catch\<close> block of \<^verbatim>\<open>savePhotos\<close> with no
  guard of its own, its exception leaves \<^verbatim>\<open>savePhotos\<close> and \<^verbatim>\<open>capturePhoto\<close>, and
  \<^verbatim>\<open>addLog\<close> is not reached. On a full store the capture of photo \<open>IMG-A-1\<close> ends with
  the quota error, the photo at the head of the photo collection and no log. When the next
  capture, of \<open>IMG-A-2\<close>, finds room in the store, both photos are persisted, and the log
  collection, in memory and persisted, holds the log of \<open>IMG-A-2\<close> alone.
\<close>

theorem rejected_retry_leaves_photo_without_log:
  "snd (capturePhoto plain_host (quota_of 0) (env_of ''IMG-A-1'') (live (initial_state ''TC-A-1'')))
     = Some QuotaExceededError
   \<and> map photo_id (photos aborted_capture) = [''IMG-A-1'']
   \<and> logs aborted_capture = []
   \<and> snd (capturePhoto plain_host accept_all (env_of ''IMG-A-2'') aborted_capture) = None
   \<and> map_option (map photo_id)
        (persisted_photos (fst (capturePhoto plain_host accept_all (env_of ''IMG-A-2'') aborted_capture)))
       = Some [''IMG-A-2'', ''IMG-A-1'']
   \<and> map log_id (logs (fst (capturePhoto plain_host accept_all (env_of ''IMG-A-2'') aborted_capture)))
       = [''IMG-A-2'']
   \<and> map_option (map log_id)
        (persisted_logs (fst (capturePhoto plain_host accept_all (env_of ''IMG-A-2'') aborted_capture)))
       = Some [''IMG-A-2'']"
proof -
  have a: "snd (capturePhoto plain_host (quota_of 0) (env_of ''IMG-A-1'') (live (initial_state ''TC-A-1'')))
             = Some QuotaExceededError"
    by (simp add: capturePhoto_def savePhotos_def setItem_def Let_def
        live_def initial_state_def quota_of_def make_photo_def env_of_def)
  have lv: "stream aborted_capture \<noteq> None" by (simp add: aborted_capture_state)
  have e: "newPhotoId (env_of ''IMG-A-2'') = ''IMG-A-2''" by (simp add: env_of_def)
  note c = capture_accept_all [OF lv, of plain_host "env_of ''IMG-A-2''"]
  have lg: "logs (fst (capturePhoto plain_host accept_all (env_of ''IMG-A-2'') aborted_capture))
              = make_log (make_photo plain_host (env_of ''IMG-A-2'') aborted_capture
                            (compose plain_host (env_of ''IMG-A-2'') aborted_capture)) # logs aborted_capture"
    by (rule capture_completed(1) [OF lv c(1)])
  show ?thesis
    using a c lg e by (simp add: aborted_capture_state make_photo_ids make_log_ids)
qed

text \<open>
  Claim C2. \<^verbatim>\<open>savePhotos\<close> writes the first 50 photos of the collection, which is kept
  newest first: when the store accepts the write, the persisted snapshot holds exactly
  these \<open>min N 50\<close> photos and the collection in memory is unchanged. When the store rejects
  the write with a quota error, the collection is cut to its first 20 photos and exactly
  one more write is made, of these 20. After a series of captures on a store that accepts
  every write, the persisted snapshot holds the ids of the 50 most recent photos, newest
  first.
\<close>

theorem savePhotos_cap_and_retry:
  "(pol (items (storage s)) PHOTOS_KEY (PhotosJSON (take 50 (photos s))) = None \<longrightarrow>
      snd (savePhotos pol s) = None
    \<and> persisted_photos (fst (savePhotos pol s)) = Some (take 50 (photos s))
    \<and> length (take 50 (photos s)) = min (length (photos s)) 50
    \<and> photos (fst (savePhotos pol s)) = photos s
    \<and> photo_writes (fst (savePhotos pol s)) = photo_writes s @ [PhotosJSON (take 50 (photos s))])
   \<and> (pol (items (storage s)) PHOTOS_KEY (PhotosJSON (take 50 (photos s))) = Some QuotaExceededError \<longrightarrow>
      photos (fst (savePhotos pol s)) = take 20 (photos s)
    \<and> photo_writes (fst (savePhotos pol s))
        = photo_writes s @ [PhotosJSON (take 50 (photos s)), PhotosJSON (take 20 (photos s))]
    \<and> (pol (items (storage s)) PHOTOS_KEY (PhotosJSON (take 20 (photos s))) = None \<longrightarrow>
          snd (savePhotos pol s) = None
        \<and> persisted_photos (fst (savePhotos pol s)) = Some (take 20 (photos s))))
   \<and> (stream s \<noteq> None \<and> es \<noteq> [] \<longrightarrow>
        map_option (map photo_id) (persisted_photos (captures h accept_all es s))
          = Some (take 50 (rev (map newPhotoId es) @ map photo_id (photos s)))
      \<and> map_option length (persisted_photos (captures h accept_all es s))
          = Some (min (length es + length (photos s)) 50))"
proof (intro conjI impI)
  assume a: "pol (items (storage s)) PHOTOS_KEY (PhotosJSON (take 50 (photos s))) = None"
  note r = savePhotos_accepted [of pol s, OF a]
  show "snd (savePhotos pol s) = None" by (simp add: r)
  show "persisted_photos (fst (savePhotos pol s)) = Some (take 50 (photos s))"
    by (simp add: r persisted_photos_def)
  show "length (take 50 (photos s)) = min (length (photos s)) 50" by simp
  show "photos (fst (savePhotos pol s)) = photos s" by (simp add: r)
  show "photo_writes (fst (savePhotos pol s)) = photo_writes s @ [PhotosJSON (take 50 (photos s))]"
    by (simp add: r photo_writes_def)
next
  assume q: "pol (items (storage s)) PHOTOS_KEY (PhotosJSON (take 50 (photos s))) = Some QuotaExceededError"
  note r = savePhotos_quota [of pol s, OF q]
  show "photos (fst (savePhotos pol s)) = take 20 (photos s)" by (simp add: r Let_def)
  show "photo_writes (fst (savePhotos pol s))
        = photo_writes s @ [PhotosJSON (take 50 (photos s)), PhotosJSON (take 20 (photos s))]"
    by (simp add: r Let_def photo_writes_def)
  assume a2: "pol (items (storage s)) PHOTOS_KEY (PhotosJSON (take 20 (photos s))) = None"
  show "snd (savePhotos pol s) = None" by (simp add: r a2 Let_def)
  show "persisted_photos (fst (savePhotos pol s)) = Some (take 20 (photos s))"
    by (simp add: r a2 Let_def persisted_photos_def)
next
  assume l: "stream s \<noteq> None \<and> es \<noteq> []"
  then have c: "map photo_id (photos (captures h accept_all es s))
                  = rev (map newPhotoId es) @ map photo_id (photos s)"
    and pp: "persisted_photos (captures h accept_all es s)
               = Some (take 50 (photos (captures h accept_all es s)))"
    using captures_accept_all [of s h es] by simp_all
  have "map photo_id (take 50 (photos (captures h accept_all es s)))
          = take 50 (map photo_id (photos (captures h accept_all es s)))"
    by (simp add: take_map)
  also have "\<dots> = take 50 (rev (map newPhotoId es) @ map photo_id (photos s))"
    by (simp only: c)
  finally have "map photo_id (take 50 (photos (captures h accept_all es s)))
                  = take 50 (rev (map newPhotoId es) @ map photo_id (photos s))" .
  with pp show "map_option (map photo_id) (persisted_photos (captures h accept_all es s))
          = Some (take 50 (rev (map newPhotoId es) @ map photo_id (photos s)))"
    by simp
  from c have "length (photos (captures h accept_all es s)) = length es + length (photos s)"
    using length_map [of photo_id "photos (captures h accept_all es s)"] by simp
  with pp show "map_option length (persisted_photos (captures h accept_all es s))
          = Some (min (length es + length (photos s)) 50)"
    by simp
qed

theorem savePhotos_cap_and_retry_witness:
  "accept_all (items (storage sixty_photos)) PHOTOS_KEY (PhotosJSON (take 50 (photos sixty_photos))) = None
   \<and> persisted_photos (fst (savePhotos accept_all sixty_photos)) = Some (replicate 50 sample_photo)
   \<and> photos (fst (savePhotos accept_all sixty_photos)) = replicate 60 sample_photo
   \<and> quota_of 25 (items (storage sixty_photos)) PHOTOS_KEY (PhotosJSON (take 50 (photos sixty_photos)))
       = Some QuotaExceededError
   \<and> quota_of 25 (items (storage sixty_photos)) PHOTOS_KEY (PhotosJSON (take 20 (photos sixty_photos)))
       = None
   \<and> photos (fst (savePhotos (quota_of 25) sixty_photos)) = replicate 20 sample_photo
   \<and> persisted_photos (fst (savePhotos (quota_of 25) sixty_photos)) = Some (replicate 20 sample_photo)
   \<and> photo_writes (fst (savePhotos (quota_of 25) sixty_photos))
       = [PhotosJSON (replicate 50 sample_photo), PhotosJSON (replicate 20 sample_photo)]
   \<and> stream sixty_photos \<noteq> None
   \<and> map_option length
        (persisted_photos (captures plain_host accept_all [env_of ''IMG-A-2'', env_of ''IMG-A-3''] sixty_photos))
       = Some 50"
  using savePhotos_cap_and_retry [of accept_all sixty_photos "[env_of ''IMG-A-2'', env_of ''IMG-A-3'']" plain_host]
    savePhotos_cap_and_retry [of "quota_of 25" sixty_photos "[env_of ''IMG-A-2'', env_of ''IMG-A-3'']" plain_host]
  by (simp add: accept_all_def quota_of_def sixty_photos_def live_def initial_state_def photo_writes_def)

subsection \<open>Rows of the export\<close>

lemma split_at_append:
  "sep \<notin> set l \<Longrightarrow> split_at sep cur (l @ r) = split_at sep (cur @ l) r"
  by (induction l arbitrary: cur) auto

lemma split_at_join:
  "xs \<noteq> [] \<Longrightarrow> \<forall>l\<in>set xs. sep \<notin> set l \<Longrightarrow> split_at sep [] (join [sep] xs) = xs"
proof (induction "[sep]" xs rule: join.induct)
  case 1
  then show ?case by simp
next
  case (2 x)
  then show ?case using split_at_append [of sep x "[]" "[]"] by simp
next
  case (3 x y ys)
  then show ?case using split_at_append [of sep x "[]" "sep # join [sep] (y # ys)"] by simp
qed

lemma length_csv_lines: "length (csv_lines h ls) = 1 + length ls"
  by (simp add: csv_lines_def)

lemma nth_csv_lines:
  "i < length ls \<Longrightarrow> csv_lines h ls ! Suc i = join '','' (csv_row h (ls ! i))"
  by (simp add: csv_lines_def)

lemma header_line:
  "csv_lines h ls ! 0 = ''ID,Timestamp (UTC),Timestamp (Local),Timezone,Latitude,Longitude,Accuracy (m),Altitude (m),Address,Session ID,Project,Operator''"
  by (simp add: csv_lines_def headers_def)

lemma labelled_row:
  "zip headers (csv_row h l)
     = [(''ID'', log_id l),
        (''Timestamp (UTC)'', log_timestamp l),
        (''Timestamp (Local)'', log_timestampLocal l),
        (''Timezone'', log_timezone l),
        (''Latitude'', num_cell h (log_latitude l)),
        (''Longitude'', num_cell h (log_longitude l)),
        (''Accuracy (m)'', num_cell h (log_accuracy l)),
        (''Altitude (m)'', num_cell h (log_altitude l)),
        (''Address'', [dquote] @ double_quotes (log_address l) @ [dquote]),
        (''Session ID'', log_sessionId l),
        (''Project'', log_projectName l),
        (''Operator'', log_operatorName l)]"
  by (simp add: headers_def csv_row_def str_cell_def)

text \<open>
  Claim C4. The export of an empty log collection is refused with the error toast
  "No logs to export" and offers no file. The export of a non-empty collection offers one
  file whose text is the header line followed by one line per log, in the order of the
  collection (newest first), joined by line feeds. The header has the twelve columns of
  the claim in the claimed order; the code spells five labels with a blank
  (\<^verbatim>\<open>Timestamp (UTC)\<close>, \<^verbatim>\<open>Timestamp (Local)\<close>, \<^verbatim>\<open>Accuracy (m)\<close>,
  \<^verbatim>\<open>Altitude (m)\<close>, \<^verbatim>\<open>Session ID\<close>) where the claim writes none, and with the blanks
  taken out the labels are the claim's. The line of a log is its twelve cells joined by
  commas, and under each label stands the field of that log the label names: the id, the two
  timestamps, the time zone, the four numbers, the address in quotes, the session id, the
  project and the operator. When no line holds a line feed, the text splits back into
  exactly these lines.
\<close>

theorem export_rows:
  "(logs s = [] \<longrightarrow>
      exportLogs h today s = s\<lparr>toasts := toasts s @ [(''No logs to export'', ''error'')]\<rparr>
    \<and> downloads (exportLogs h today s) = downloads s)
   \<and> (logs s \<noteq> [] \<longrightarrow>
      downloads (exportLogs h today s)
        = downloads s @ [(''tracecam-logs-'' @ today @ ''.csv'', join [CHR 0x0A] (csv_lines h (logs s)))]
    \<and> length (csv_lines h (logs s)) = 1 + length (logs s)
    \<and> csv_lines h (logs s) ! 0 = join '','' headers
    \<and> tl (csv_lines h (logs s)) = map (\<lambda>l. join '','' (csv_row h l)) (logs s)
    \<and> headers = [''ID'', ''Timestamp (UTC)'', ''Timestamp (Local)'', ''Timezone'',
                  ''Latitude'', ''Longitude'', ''Accuracy (m)'', ''Altitude (m)'',
                  ''Address'', ''Session ID'', ''Project'', ''Operator'']
    \<and> map (filter (\<lambda>c. c \<noteq> CHR '' '')) headers
        = [''ID'', ''Timestamp(UTC)'', ''Timestamp(Local)'', ''Timezone'',
           ''Latitude'', ''Longitude'', ''Accuracy(m)'', ''Altitude(m)'',
           ''Address'', ''SessionID'', ''Project'', ''Operator'']
    \<and> (\<forall>i < length (logs s).
          csv_lines h (logs s) ! Suc i = join '','' (csv_row h (logs s ! i))
        \<and> length (csv_row h (logs s ! i)) = 12
        \<and> zip headers (csv_row h (logs s ! i))
            = [(''ID'', log_id (logs s ! i)),
               (''Timestamp (UTC)'', log_timestamp (logs s ! i)),
               (''Timestamp (Local)'', log_timestampLocal (logs s ! i)),
               (''Timezone'', log_timezone (logs s ! i)),
               (''Latitude'', num_cell h (log_latitude (logs s ! i))),
               (''Longitude'', num_cell h (log_longitude (logs s ! i))),
               (''Accuracy (m)'', num_cell h (log_accuracy (logs s ! i))),
               (''Altitude (m)'', num_cell h (log_altitude (logs s ! i))),
               (''Address'', [dquote] @ double_quotes (log_address (logs s ! i)) @ [dquote]),
               (''Session ID'', log_sessionId (logs s ! i)),
               (''Project'', log_projectName (logs s ! i)),
               (''Operator'', log_operatorName (logs s ! i))])
    \<and> ((\<forall>l \<in> set (csv_lines h (logs s)). CHR 0x0A \<notin> set l) \<longrightarrow>
          split_at (CHR 0x0A) [] (join [CHR 0x0A] (csv_lines h (logs s))) = csv_lines h (logs s)))"
proof (intro conjI impI allI)
  assume e: "logs s = []"
  then show "exportLogs h today s = s\<lparr>toasts := toasts s @ [(''No logs to export'', ''error'')]\<rparr>"
    by (simp add: exportLogs_def showToast_def)
  from e show "downloads (exportLogs h today s) = downloads s"
    by (simp add: exportLogs_def showToast_def)
next
  assume n: "logs s \<noteq> []"
  then show "downloads (exportLogs h today s)
        = downloads s @ [(''tracecam-logs-'' @ today @ ''.csv'', join [CHR 0x0A] (csv_lines h (logs s)))]"
    by (simp add: exportLogs_def showToast_def Let_def)
  show "length (csv_lines h (logs s)) = 1 + length (logs s)" by (rule length_csv_lines)
  show "csv_lines h (logs s) ! 0 = join '','' headers" by (simp add: csv_lines_def)
  show "tl (csv_lines h (logs s)) = map (\<lambda>l. join '','' (csv_row h l)) (logs s)"
    by (simp add: csv_lines_def)
  show "headers = [''ID'', ''Timestamp (UTC)'', ''Timestamp (Local)'', ''Timezone'',
                  ''Latitude'', ''Longitude'', ''Accuracy (m)'', ''Altitude (m)'',
                  ''Address'', ''Session ID'', ''Project'', ''Operator'']"
    by (simp add: headers_def)
  show "map (filter (\<lambda>c. c \<noteq> CHR '' '')) headers
        = [''ID'', ''Timestamp(UTC)'', ''Timestamp(Local)'', ''Timezone'',
           ''Latitude'', ''Longitude'', ''Accuracy(m)'', ''Altitude(m)'',
           ''Address'', ''SessionID'', ''Project'', ''Operator'']"
    by (simp add: headers_def)
  { fix i assume "i < length (logs s)"
    then show "csv_lines h (logs s) ! Suc i = join '','' (csv_row h (logs s ! i))"
      by (rule nth_csv_lines)
    show "length (csv_row h (logs s ! i)) = 12" by (simp add: csv_row_def)
    show "zip headers (csv_row h (logs s ! i))
            = [(''ID'', log_id (logs s ! i)),
               (''Timestamp (UTC)'', log_timestamp (logs s ! i)),
               (''Timestamp (Local)'', log_timestampLocal (logs s ! i)),
               (''Timezone'', log_timezone (logs s ! i)),
               (''Latitude'', num_cell h (log_latitude (logs s ! i))),
               (''Longitude'', num_cell h (log_longitude (logs s ! i))),
               (''Accuracy (m)'', num_cell h (log_accuracy (logs s ! i))),
               (''Altitude (m)'', num_cell h (log_altitude (logs s ! i))),
               (''Address'', [dquote] @ double_quotes (log_address (logs s ! i)) @ [dquote]),
               (''Session ID'', log_sessionId (logs s ! i)),
               (''Project'', log_projectName (logs s ! i)),
               (''Operator'', log_operatorName (logs s ! i))]"
      by (rule labelled_row) }
  { assume "\<forall>l \<in> set (csv_lines h (logs s)). CHR 0x0A \<notin> set l"
    then show "split_at (CHR 0x0A) [] (join [CHR 0x0A] (csv_lines h (logs s))) = csv_lines h (logs s)"
      using split_at_join [of "csv_lines h (logs s)" "CHR 0x0A"] by (simp add: csv_lines_def) }
qed

theorem export_rows_witness:
  "logs (initial_state ''TC-A-1'') = []
   \<and> downloads (exportLogs plain_host ''2024-05-01'' (initial_state ''TC-A-1'')) = []
   \<and> logs one_log \<noteq> []
   \<and> length (csv_lines plain_host (logs one_log)) = 2
   \<and> csv_lines plain_host (logs one_log) ! Suc 0 = join '','' (csv_row plain_host sample_log)
   \<and> map snd (zip headers (csv_row plain_host sample_log))
       = [''IMG-A-1'', ''2024-05-01T10:00:00.000Z'', ''5/1/2024 10:00:00'', ''UTC'',
          ''n'', ''n'', ''n'', [], [dquote] @ ''Main Street'' @ [dquote], ''TC-A-1'', ''Survey'',
          ''Kim'']
   \<and> split_at (CHR 0x0A) [] (join [CHR 0x0A] (csv_lines plain_host (logs one_log)))
       = csv_lines plain_host (logs one_log)"
proof -
  have nl: "\<forall>l \<in> set (csv_lines plain_host (logs one_log)). CHR 0x0A \<notin> set l"
    by (simp add: one_log_def csv_lines_def headers_def csv_row_def sample_log_def num_cell_def
        str_cell_def double_quotes_def dquote_def plain_host_def)
  have e: "logs (initial_state ''TC-A-1'') = []" by (simp add: initial_state_def)
  have d: "downloads (initial_state ''TC-A-1'') = []" by (simp add: initial_state_def)
  have o: "logs one_log = [sample_log]" by (simp add: one_log_def)
  have v: "log_id sample_log = ''IMG-A-1''"
    "log_timestamp sample_log = ''2024-05-01T10:00:00.000Z''"
    "log_timestampLocal sample_log = ''5/1/2024 10:00:00''"
    "log_timezone sample_log = ''UTC''"
    "num_cell plain_host (log_latitude sample_log) = ''n''"
    "num_cell plain_host (log_longitude sample_log) = ''n''"
    "num_cell plain_host (log_accuracy sample_log) = ''n''"
    "num_cell plain_host (log_altitude sample_log) = []"
    "double_quotes (log_address sample_log) = ''Main Street''"
    "log_sessionId sample_log = ''TC-A-1''"
    "log_projectName sample_log = ''Survey''"
    "log_operatorName sample_log = ''Kim''"
    by (simp_all add: sample_log_def num_cell_def plain_host_def double_quotes_def dquote_def)
  show ?thesis
    using nl e d o v export_rows [of "initial_state ''TC-A-1''" plain_host "''2024-05-01''"]
      export_rows [of one_log plain_host "''2024-05-01''"]
    by simp
qed

subsection \<open>Escaping in the export\<close>

lemma dquote_neq_comma: "dquote \<noteq> CHR '',''" "CHR '','' \<noteq> dquote"
  by (simp_all add: dquote_def)

lemma cells_plain_comma:
  "plain_text x \<Longrightarrow> csv_cells False cur (x @ CHR '','' # r) = (cur @ x) # csv_cells False [] r"
  by (induction x arbitrary: cur) (auto simp add: plain_text_def dquote_neq_comma)

lemma cells_plain_end:
  "plain_text x \<Longrightarrow> csv_cells False cur x = [cur @ x]"
  by (induction x arbitrary: cur) (auto simp add: plain_text_def dquote_neq_comma)

lemma cells_quoted_step:
  "r \<noteq> [] \<Longrightarrow> c \<noteq> dquote \<Longrightarrow> csv_cells True cur (c # r) = csv_cells True (cur @ [c]) r"
  by (cases r) simp_all

lemma cells_quoted:
  "csv_cells True cur (double_quotes a @ dquote # CHR '','' # r) = (cur @ a) # csv_cells False [] r"
proof (induction a arbitrary: cur)
  case Nil
  then show ?case by (simp add: double_quotes_def dquote_neq_comma)
next
  case (Cons c a)
  show ?case
  proof (cases "c = dquote")
    case True
    then show ?thesis using Cons.IH [of "cur @ [dquote]"] by (simp add: double_quotes_def)
  next
    case False
    have ne: "double_quotes a @ dquote # CHR '','' # r \<noteq> []" by simp
    from False have "double_quotes (c # a) = c # double_quotes a" by (simp add: double_quotes_def)
    then show ?thesis
      using cells_quoted_step [OF ne False, of cur] Cons.IH [of "cur @ [c]"] by simp
  qed
qed

lemma row_reads_back:
  assumes "\<forall>c \<in> set (raw_cells h l). plain_text c"
  shows "read_csv_line (join '','' (csv_row h l)) = cell_values h l"
proof -
  from assms have p:
    "plain_text (log_id l)" "plain_text (log_timestamp l)" "plain_text (log_timestampLocal l)"
    "plain_text (log_timezone l)" "plain_text (num_cell h (log_latitude l))"
    "plain_text (num_cell h (log_longitude l))" "plain_text (num_cell h (log_accuracy l))"
    "plain_text (num_cell h (log_altitude l))" "plain_text (log_sessionId l)"
    "plain_text (log_projectName l)" "plain_text (log_operatorName l)"
    by (simp_all add: raw_cells_def)
  show ?thesis
    by (simp add: read_csv_line_def csv_row_def cell_values_def str_cell_def
        cells_plain_comma cells_plain_end cells_quoted p dquote_neq_comma)
qed


text \<open>
  Claim C5 asks that every text cell of a row be quoted and escaped. The code does so for
  the address only; the id, the two timestamps, the time zone, the session id, the project
  and the operator are written as they are. A project name with a comma, or the local
  timestamp of a capture in a locale whose date format has a comma, splits the row into
  thirteen cells, and the row does not read back to the values of the log; an address with
  quotes and a comma does.
\<close>

theorem unescaped_comma_breaks_row:
  "csv_row plain_host comma_log ! 10 = ''Roads, North''
   \<and> length (read_csv_line (join '','' (csv_row plain_host comma_log))) = 13
   \<and> read_csv_line (join '','' (csv_row plain_host comma_log)) \<noteq> cell_values plain_host comma_log
   \<and> csv_row plain_host en_US_log ! 2 = ''5/1/2024, 10:00:00 AM''
   \<and> length (read_csv_line (join '','' (csv_row plain_host en_US_log))) = 13
   \<and> read_csv_line (join '','' (csv_row plain_host quoted_address_log)) = cell_values plain_host quoted_address_log"
  by (simp add: csv_row_def comma_log_def en_US_log_def quoted_address_log_def sample_log_def read_csv_line_def cell_values_def
      num_cell_def str_cell_def double_quotes_def dquote_def plain_host_def)

subsection \<open>Degrees, minutes, seconds\<close>

lemma toFixed_num_close: "\<bar>toFixed_num 2 x - x\<bar> \<le> 1 / 200"
proof (cases "x < 0")
  case False
  define n where "n = \<lfloor>x * 100 + 1 / 2\<rfloor>"
  have "real_of_int n \<le> x * 100 + 1 / 2" and "x * 100 + 1 / 2 < real_of_int n + 1"
    unfolding n_def by linarith+
  then have A: "\<bar>real_of_int n / 100 - x\<bar> \<le> 1 / 200" by linarith
  from False have B: "toFixed_num 2 x = real_of_int n / 100"
    by (simp add: toFixed_num_def n_def)
  show ?thesis unfolding B by (rule A)
next
  case True
  define n where "n = \<lfloor>(- x) * 100 + 1 / 2\<rfloor>"
  have "real_of_int n \<le> (- x) * 100 + 1 / 2" and "(- x) * 100 + 1 / 2 < real_of_int n + 1"
    unfolding n_def by linarith+
  then have A: "\<bar>- (real_of_int n / 100) - x\<bar> \<le> 1 / 200" by linarith
  from True have B: "toFixed_num 2 x = - (real_of_int n / 100)"
    by (simp add: toFixed_num_def n_def)
  show ?thesis unfolding B by (rule A)
qed

lemma toFixed_num_hundredths: "\<exists>n::int. toFixed_num 2 x = of_int n / 100"
  by (cases "x < 0") (auto simp add: toFixed_num_def intro: exI [of _ "- \<lfloor>- x * 100 + 1 / 2\<rfloor>"])

lemma dms_to_decimal_toDMS:
  "dms_to_decimal (toDMS fl v isLat)
     = (if v \<ge> 0 then 1 else - 1)
       * (of_int (degrees (toDMS fl v isLat)) + of_int (minutes (toDMS fl v isLat)) / 60
          + seconds (toDMS fl v isLat) / 3600)"
  by (simp add: dms_to_decimal_def toDMS_def Let_def)

lemma toDMS_roundtrip_fl:
  assumes fl: "\<forall>x. - 1 \<le> x \<and> x \<le> 61 \<longrightarrow> \<bar>fl x - x\<bar> \<le> 1 / 10 ^ 9"
  shows "\<bar>dms_to_decimal (toDMS fl v isLat) - v\<bar> \<le> (1 / 100) / 3600"
proof -
  define a where "a = \<bar>v\<bar>"
  define D where "D = \<lfloor>a\<rfloor>"
  define f0 where "f0 = a - of_int D"
  define f1 where "f1 = fl f0"
  define md where "md = fl (f1 * 60)"
  define M where "M = \<lfloor>md\<rfloor>"
  define g0 where "g0 = md - of_int M"
  define g1 where "g1 = fl g0"
  define sr where "sr = fl (g1 * 60)"
  define S where "S = toFixed_num 2 sr"
  have eps: "(1::real) / 10 ^ 9 = 1 / 1000000000" by simp
  from fl have fl': "\<And>x. - 1 \<le> x \<Longrightarrow> x \<le> 61 \<Longrightarrow> \<bar>fl x - x\<bar> \<le> 1 / 1000000000"
    unfolding eps by blast
  have f0: "0 \<le> f0" "f0 < 1" unfolding f0_def D_def by linarith+
  have e1: "\<bar>f1 - f0\<bar> \<le> 1 / 1000000000" unfolding f1_def using f0 by (intro fl') linarith+
  have e2: "\<bar>md - f1 * 60\<bar> \<le> 1 / 1000000000"
    unfolding md_def using e1 f0 by (intro fl') linarith+
  have g0: "0 \<le> g0" "g0 < 1" unfolding g0_def M_def by linarith+
  have e3: "\<bar>g1 - g0\<bar> \<le> 1 / 1000000000" unfolding g1_def using g0 by (intro fl') linarith+
  have e4: "\<bar>sr - g1 * 60\<bar> \<le> 1 / 1000000000"
    unfolding sr_def using e3 g0 by (intro fl') linarith+
  have e5: "\<bar>S - sr\<bar> \<le> 1 / 200" unfolding S_def by (rule toFixed_num_close)
  have parts: "degrees (toDMS fl v isLat) = D" "minutes (toDMS fl v isLat) = M"
    "seconds (toDMS fl v isLat) = S"
    by (simp_all add: toDMS_def Let_def a_def D_def f0_def f1_def md_def M_def g0_def g1_def sr_def S_def)
  have key: "\<bar>of_int D + of_int M / 60 + S / 3600 - a\<bar> \<le> (1 / 100) / 3600"
    using e1 e2 e3 e4 e5 unfolding f0_def g0_def by linarith
  have bk: "dms_to_decimal (toDMS fl v isLat)
                = (if v \<ge> 0 then 1 else - 1) * (of_int D + of_int M / 60 + S / 3600)"
    by (simp only: dms_to_decimal_toDMS parts)
  show ?thesis
  proof (cases "v \<ge> 0")
    case True
    then have "a = v" by (simp add: a_def)
    moreover from True bk
    have "dms_to_decimal (toDMS fl v isLat) = of_int D + of_int M / 60 + S / 3600" by simp
    ultimately show ?thesis using key by linarith
  next
    case False
    then have "a = - v" by (simp add: a_def)
    moreover from False bk
    have "dms_to_decimal (toDMS fl v isLat) = - (of_int D + of_int M / 60 + S / 3600)" by simp
    ultimately show ?thesis using key by linarith
  qed
qed


lemma rounded_product_close:
  fixes fl :: "real \<Rightarrow> real" and x :: real
  assumes fl: "\<forall>x. - 1 \<le> x \<and> x \<le> 61 \<longrightarrow> \<bar>fl x - x\<bar> \<le> 1 / 10 ^ 9"
    and x: "0 \<le> x" "x < 1"
  shows "\<bar>fl (fl x * 60) - x * 60\<bar> \<le> 61 / 10 ^ 9"
proof -
  have eps: "(1::real) / 10 ^ 9 = 1 / 1000000000" by simp
  have eps61: "(61::real) / 10 ^ 9 = 61 / 1000000000" by simp
  from fl have fl': "\<And>y. - 1 \<le> y \<Longrightarrow> y \<le> 61 \<Longrightarrow> \<bar>fl y - y\<bar> \<le> 1 / 1000000000"
    unfolding eps by blast
  have e1: "\<bar>fl x - x\<bar> \<le> 1 / 1000000000" using x by (intro fl') linarith+
  have e2: "\<bar>fl (fl x * 60) - fl x * 60\<bar> \<le> 1 / 1000000000"
    using e1 x by (intro fl') linarith+
  have "\<bar>fl (fl x * 60) - x * 60\<bar> \<le> 61 / 1000000000" using e1 e2 by linarith
  then show ?thesis by (simp only: eps61)
qed

lemma fractional_part: "0 \<le> x - of_int \<lfloor>x\<rfloor>" "x - of_int \<lfloor>x\<rfloor> < (1::real)"
  by linarith+

text \<open>One coordinate: the parts that \<^verbatim>\<open>toDMS\<close> returns, for any rounding \<open>fl\<close> that is off
  by at most \<open>10\<^sup>-\<^sup>9\<close> on \<open>[-1, 61]\<close>.\<close>

lemma toDMS_parts:
  assumes fl: "\<forall>x. - 1 \<le> x \<and> x \<le> 61 \<longrightarrow> \<bar>fl x - x\<bar> \<le> 1 / 10 ^ 9"
  shows "degrees (toDMS fl v isLat) = \<lfloor>\<bar>v\<bar>\<rfloor>
       \<and> minutes (toDMS fl v isLat) = \<lfloor>minutesDecimal fl v\<rfloor>
       \<and> \<bar>minutesDecimal fl v - (\<bar>v\<bar> - of_int \<lfloor>\<bar>v\<bar>\<rfloor>) * 60\<bar> \<le> 61 / 10 ^ 9
       \<and> seconds (toDMS fl v isLat) = toFixed_num 2 (secondsDecimal fl v)
       \<and> \<bar>secondsDecimal fl v
            - (minutesDecimal fl v - of_int (minutes (toDMS fl v isLat))) * 60\<bar> \<le> 61 / 10 ^ 9
       \<and> \<bar>seconds (toDMS fl v isLat) - secondsDecimal fl v\<bar> \<le> 1 / 200
       \<and> (\<exists>n::int. seconds (toDMS fl v isLat) = of_int n / 100)
       \<and> direction (toDMS fl v isLat)
           = (if isLat then (if v \<ge> 0 then ''N'' else ''S'') else (if v \<ge> 0 then ''E'' else ''W''))
       \<and> \<bar>dms_to_decimal (toDMS fl v isLat) - v\<bar> \<le> (1 / 100) / 3600"
proof (intro conjI)
  show "degrees (toDMS fl v isLat) = \<lfloor>\<bar>v\<bar>\<rfloor>"
    by (simp add: toDMS_def Let_def)
  show mins: "minutes (toDMS fl v isLat) = \<lfloor>minutesDecimal fl v\<rfloor>"
    by (simp add: toDMS_def minutesDecimal_def Let_def)
  show "\<bar>minutesDecimal fl v - (\<bar>v\<bar> - of_int \<lfloor>\<bar>v\<bar>\<rfloor>) * 60\<bar> \<le> 61 / 10 ^ 9"
    unfolding minutesDecimal_def by (rule rounded_product_close [OF fl fractional_part])
  show sec: "seconds (toDMS fl v isLat) = toFixed_num 2 (secondsDecimal fl v)"
    by (simp add: toDMS_def secondsDecimal_def minutesDecimal_def Let_def)
  show "\<bar>secondsDecimal fl v
          - (minutesDecimal fl v - of_int (minutes (toDMS fl v isLat))) * 60\<bar> \<le> 61 / 10 ^ 9"
    unfolding mins secondsDecimal_def by (rule rounded_product_close [OF fl fractional_part])
  show "\<bar>seconds (toDMS fl v isLat) - secondsDecimal fl v\<bar> \<le> 1 / 200"
    unfolding sec by (rule toFixed_num_close)
  show "\<exists>n::int. seconds (toDMS fl v isLat) = of_int n / 100"
    unfolding sec by (rule toFixed_num_hundredths)
  show "direction (toDMS fl v isLat)
           = (if isLat then (if v \<ge> 0 then ''N'' else ''S'') else (if v \<ge> 0 then ''E'' else ''W''))"
    by (simp add: toDMS_def Let_def)
  show "\<bar>dms_to_decimal (toDMS fl v isLat) - v\<bar> \<le> (1 / 100) / 3600"
    by (rule toDMS_roundtrip_fl [OF fl])
qed

text \<open>
  Claim C6. The arithmetic of the code is the arithmetic of doubles: \<open>fl\<close> stands for the
  rounding of a result to a double, of which the proof uses only that it is off by at most
  \<open>10\<^sup>-\<^sup>9\<close> on \<open>[-1, 61]\<close> (rounding to a double is off by less than \<open>10\<^sup>-\<^sup>1\<^sup>4\<close> there).
  For the latitude and for the longitude that \<^verbatim>\<open>decimalToDMS\<close> returns:
  degrees is \<open>\<lfloor>|v|\<rfloor>\<close>; minutes is the floor of the product of the fractional degrees and 60
  as the code computes it, which is within \<open>6.1 \<sqdot> 10\<^sup>-\<^sup>8\<close> of the exact product; seconds is
  the computed product of the fractional minutes and 60, within \<open>6.1 \<sqdot> 10\<^sup>-\<^sup>8\<close> of the exact
  one, rounded to two decimals (a whole number of hundredths at most 0.005 away); the
  direction is N or S by the sign of the latitude and E or W by the sign of the longitude;
  and the reading back in decimal degrees, with the sign of the direction, is within 0.01
  arcsecond (\<open>0.01 / 3600\<close> degrees) of the value. Where the exact product of the fractional
  degrees and 60 lies just under a whole number, the computed product may be that whole
  number, and the minutes of the code are then one more than the floor of the exact
  product, with seconds 0.00 for 60.00: the same angle.
\<close>

theorem decimalToDMS_parts_and_roundtrip:
  assumes fl: "\<forall>x. - 1 \<le> x \<and> x \<le> 61 \<longrightarrow> \<bar>fl x - x\<bar> \<le> 1 / 10 ^ 9"
  shows "(let p = dms_latitude (decimalToDMS fl lat lng) in
            degrees p = \<lfloor>\<bar>lat\<bar>\<rfloor>
          \<and> minutes p = \<lfloor>minutesDecimal fl lat\<rfloor>
          \<and> \<bar>minutesDecimal fl lat - (\<bar>lat\<bar> - of_int \<lfloor>\<bar>lat\<bar>\<rfloor>) * 60\<bar> \<le> 61 / 10 ^ 9
          \<and> seconds p = toFixed_num 2 (secondsDecimal fl lat)
          \<and> \<bar>secondsDecimal fl lat - (minutesDecimal fl lat - of_int (minutes p)) * 60\<bar> \<le> 61 / 10 ^ 9
          \<and> \<bar>seconds p - secondsDecimal fl lat\<bar> \<le> 1 / 200
          \<and> (\<exists>n::int. seconds p = of_int n / 100)
          \<and> direction p = (if lat \<ge> 0 then ''N'' else ''S'')
          \<and> \<bar>dms_to_decimal p - lat\<bar> \<le> (1 / 100) / 3600)
       \<and> (let p = dms_longitude (decimalToDMS fl lat lng) in
            degrees p = \<lfloor>\<bar>lng\<bar>\<rfloor>
          \<and> minutes p = \<lfloor>minutesDecimal fl lng\<rfloor>
          \<and> \<bar>minutesDecimal fl lng - (\<bar>lng\<bar> - of_int \<lfloor>\<bar>lng\<bar>\<rfloor>) * 60\<bar> \<le> 61 / 10 ^ 9
          \<and> seconds p = toFixed_num 2 (secondsDecimal fl lng)
          \<and> \<bar>secondsDecimal fl lng - (minutesDecimal fl lng - of_int (minutes p)) * 60\<bar> \<le> 61 / 10 ^ 9
          \<and> \<bar>seconds p - secondsDecimal fl lng\<bar> \<le> 1 / 200
          \<and> (\<exists>n::int. seconds p = of_int n / 100)
          \<and> direction p = (if lng \<ge> 0 then ''E'' else ''W'')
          \<and> \<bar>dms_to_decimal p - lng\<bar> \<le> (1 / 100) / 3600)"
proof -
  have la: "dms_latitude (decimalToDMS fl lat lng) = toDMS fl lat True"
    and lo: "dms_longitude (decimalToDMS fl lat lng) = toDMS fl lng False"
    by (simp_all add: decimalToDMS_def)
  note A = toDMS_parts [OF fl, of lat True, simplified if_True]
  note B = toDMS_parts [OF fl, of lng False, simplified if_False]
  show ?thesis
    unfolding Let_def la lo by (rule conjI [OF A B])
qed

theorem decimalToDMS_parts_and_roundtrip_witness:
  "degrees (dms_latitude (decimalToDMS (\<lambda>x. x + 1 / 10 ^ 10) 12.345678 (- 98.765432))) = 12
   \<and> minutes (dms_latitude (decimalToDMS (\<lambda>x. x + 1 / 10 ^ 10) 12.345678 (- 98.765432))) = 20
   \<and> seconds (dms_latitude (decimalToDMS (\<lambda>x. x + 1 / 10 ^ 10) 12.345678 (- 98.765432))) = 44.44
   \<and> direction (dms_latitude (decimalToDMS (\<lambda>x. x + 1 / 10 ^ 10) 12.345678 (- 98.765432))) = ''N''
   \<and> degrees (dms_longitude (decimalToDMS (\<lambda>x. x + 1 / 10 ^ 10) 12.345678 (- 98.765432))) = 98
   \<and> minutes (dms_longitude (decimalToDMS (\<lambda>x. x + 1 / 10 ^ 10) 12.345678 (- 98.765432))) = 45
   \<and> seconds (dms_longitude (decimalToDMS (\<lambda>x. x + 1 / 10 ^ 10) 12.345678 (- 98.765432))) = 55.56
   \<and> direction (dms_longitude (decimalToDMS (\<lambda>x. x + 1 / 10 ^ 10) 12.345678 (- 98.765432))) = ''W''
   \<and> \<bar>dms_to_decimal (dms_latitude (decimalToDMS (\<lambda>x. x + 1 / 10 ^ 10) 12.345678 (- 98.765432)))
        - 12.345678\<bar> \<le> (1 / 100) / 3600
   \<and> \<bar>dms_to_decimal (dms_longitude (decimalToDMS (\<lambda>x. x + 1 / 10 ^ 10) 12.345678 (- 98.765432)))
        - (- 98.765432)\<bar> \<le> (1 / 100) / 3600"
proof -
  have h: "\<forall>x::real. - 1 \<le> x \<and> x \<le> 61 \<longrightarrow> \<bar>(x + 1 / 10 ^ 10) - x\<bar> \<le> 1 / 10 ^ 9"
    by simp
  have ma: "\<lfloor>minutesDecimal (\<lambda>x. x + 1 / 10 ^ 10) 12.345678\<rfloor> = 20"
    and mo: "\<lfloor>minutesDecimal (\<lambda>x. x + 1 / 10 ^ 10) (- 98.765432)\<rfloor> = 45"
    by (simp_all add: minutesDecimal_def)
  have sa: "toFixed_num 2 (secondsDecimal (\<lambda>x. x + 1 / 10 ^ 10) 12.345678) = 44.44"
    and so: "toFixed_num 2 (secondsDecimal (\<lambda>x. x + 1 / 10 ^ 10) (- 98.765432)) = 55.56"
    by (simp_all add: secondsDecimal_def minutesDecimal_def toFixed_num_def)
  show ?thesis
    using decimalToDMS_parts_and_roundtrip [OF h, of "12.345678" "- 98.765432"] ma mo sa so
    by (simp add: Let_def)
qed

subsection \<open>Debounced reverse geocoding\<close>

lemma reverseGeocode_idle:
  assumes "pending (timers s) = []"
  shows "reverseGeocode lat lng s
         = s\<lparr>geocodeTimeout := Some (nextId (timers s)),
              timers := (timers s)\<lparr>pending := [(nextId (timers s), now (timers s) + 1000, lat, lng)],
                                   nextId := Suc (nextId (timers s))\<rparr>\<rparr>"
  using assms
  by (simp add: reverseGeocode_def clearTimeout_def setTimeout_def Let_def split: option.splits)

lemma reverseGeocode_supersedes:
  assumes "pending (timers s) = [(i, t, a)]" and "geocodeTimeout s = Some i"
  shows "reverseGeocode lat lng s
         = s\<lparr>geocodeTimeout := Some (nextId (timers s)),
              timers := (timers s)\<lparr>pending := [(nextId (timers s), now (timers s) + 1000, lat, lng)],
                                   nextId := Suc (nextId (timers s))\<rparr>\<rparr>"
  using assms
  by (simp add: reverseGeocode_def clearTimeout_def setTimeout_def Let_def)

lemma elapse_early:
  assumes "pending (timers s) = [(i, t, a)]" and "now (timers s) + d < t"
  shows "elapse d s = s\<lparr>timers := (timers s)\<lparr>now := now (timers s) + d\<rparr>\<rparr>"
  using assms by (simp add: elapse_def Let_def)

lemma elapse_due:
  assumes "pending (timers s) = [(i, t, a)]" and "t \<le> now (timers s) + d"
  shows "elapse d s = s\<lparr>timers := (timers s)\<lparr>now := now (timers s) + d, pending := []\<rparr>,
                          requests := requests s @ [a]\<rparr>"
  using assms by (simp add: elapse_def Let_def)

lemma elapse_idle:
  assumes "pending (timers s) = []"
  shows "requests (elapse d s) = requests s" "pending (timers (elapse d s)) = []"
  using assms by (simp_all add: elapse_def Let_def)

text \<open>
  Claim C9. From a state with no lookup pending, let a fix arrive, then a second fix \<open>d\<close>
  milliseconds later with \<open>d < 1000\<close>. The timeout of the first fix is cleared before it is
  due, and no request has been issued when the second fix has been handled. After \<open>w\<close> more
  milliseconds, nothing has been requested if \<open>w < 1000\<close>, and exactly one request, for the
  coordinates of the second fix, if \<open>w \<ge> 1000\<close>; no further request follows.
\<close>

theorem debounce_latest_fix:
  assumes "pending (timers s) = []" and "d < 1000"
  shows "requests (run h fl month [Fix c1, Elapse d, Fix c2] s) = requests s
       \<and> requests (run h fl month [Fix c1, Elapse d, Fix c2, Elapse w] s)
           = (if w \<ge> 1000 then requests s @ [(latitude c2, longitude c2)] else requests s)
       \<and> (w \<ge> 1000 \<longrightarrow>
            requests (run h fl month [Fix c1, Elapse d, Fix c2, Elapse w, Elapse w'] s)
              = requests s @ [(latitude c2, longitude c2)])"
proof -
  let ?n = "nextId (timers s)"
  let ?t = "now (timers s)"
  define s1 where "s1 = updatePosition h fl month c1 s"
  define s2 where "s2 = elapse d s1"
  define s3 where "s3 = updatePosition h fl month c2 s2"
  have s1: "pending (timers s1) = [(?n, ?t + 1000, latitude c1, longitude c1)]"
    "geocodeTimeout s1 = Some ?n" "now (timers s1) = ?t" "requests s1 = requests s"
    "nextId (timers s1) = Suc ?n"
    using assms(1) by (simp_all add: s1_def updatePosition_def Let_def reverseGeocode_idle)
  have s2: "pending (timers s2) = [(?n, ?t + 1000, latitude c1, longitude c1)]"
    "geocodeTimeout s2 = Some ?n" "now (timers s2) = ?t + d" "requests s2 = requests s"
    "nextId (timers s2) = Suc ?n"
    using s1 assms(2) by (simp_all add: s2_def elapse_early [of s1 ?n "?t + 1000" "(latitude c1, longitude c1)" d])
  have s3: "pending (timers s3) = [(Suc ?n, ?t + d + 1000, latitude c2, longitude c2)]"
    "requests s3 = requests s" "now (timers s3) = ?t + d"
    using s2
    by (simp_all add: s3_def updatePosition_def Let_def
        reverseGeocode_supersedes [of _ ?n "?t + 1000" "(latitude c1, longitude c1)"])
  have run3: "run h fl month [Fix c1, Elapse d, Fix c2] s = s3"
    by (simp add: run_def s1_def s2_def s3_def)
  have run4: "run h fl month [Fix c1, Elapse d, Fix c2, Elapse w] s = elapse w s3"
    by (simp add: run_def s1_def s2_def s3_def)
  have run5: "run h fl month [Fix c1, Elapse d, Fix c2, Elapse w, Elapse w'] s = elapse w' (elapse w s3)"
    by (simp add: run_def s1_def s2_def s3_def)
  have late: "w \<ge> 1000 \<Longrightarrow> elapse w s3
        = s3\<lparr>timers := (timers s3)\<lparr>now := now (timers s3) + w, pending := []\<rparr>,
              requests := requests s3 @ [(latitude c2, longitude c2)]\<rparr>"
    using s3 by (intro elapse_due [of s3 "Suc ?n" "?t + d + 1000"]) simp_all
  have early: "\<not> w \<ge> 1000 \<Longrightarrow> elapse w s3 = s3\<lparr>timers := (timers s3)\<lparr>now := now (timers s3) + w\<rparr>\<rparr>"
    using s3 by (intro elapse_early [of s3 "Suc ?n" "?t + d + 1000" "(latitude c2, longitude c2)"]) simp_all
  show ?thesis
  proof (intro conjI impI)
    show "requests (run h fl month [Fix c1, Elapse d, Fix c2] s) = requests s"
      by (simp add: run3 s3)
    show "requests (run h fl month [Fix c1, Elapse d, Fix c2, Elapse w] s)
           = (if w \<ge> 1000 then requests s @ [(latitude c2, longitude c2)] else requests s)"
      using late early by (cases "w \<ge> 1000") (simp_all add: run4 s3)
    assume w: "w \<ge> 1000"
    show "requests (run h fl month [Fix c1, Elapse d, Fix c2, Elapse w, Elapse w'] s)
              = requests s @ [(latitude c2, longitude c2)]"
      unfolding run5 using late [OF w] by (simp add: elapse_idle s3)
  qed
qed

theorem debounce_latest_fix_witness:
  "pending (timers (initial_state ''TC-A-1'')) = [] \<and> (200::nat) < 1000
   \<and> requests (run plain_host (\<lambda>x. x) 4 [Fix fix_a, Elapse 200, Fix fix_b, Elapse 1000] (initial_state ''TC-A-1''))
       = [(12.3457, 98.7655)]
   \<and> requests (run plain_host (\<lambda>x. x) 4 [Fix fix_a, Elapse 200, Fix fix_b, Elapse 999] (initial_state ''TC-A-1''))
       = []"
proof -
  have p: "pending (timers (initial_state ''TC-A-1'')) = []" by (simp add: initial_state_def)
  have d: "(200::nat) < 1000" by simp
  have r: "requests (initial_state ''TC-A-1'') = []" by (simp add: initial_state_def)
  show ?thesis
    using p r debounce_latest_fix [OF p d, of plain_host "\<lambda>x. x" 4 fix_a fix_b 1000]
      debounce_latest_fix [OF p d, of plain_host "\<lambda>x. x" 4 fix_a fix_b 999]
    by (simp add: fix_b_def)
qed

text \<open>In \<^verbatim>\<open>src/app.js\<close> there is no timer: every fix is looked up at once.\<close>

lemma no_debounce_v0:
  "requests (reverseGeocode_v0 lat2 lng2 (reverseGeocode_v0 lat1 lng1 s))
     = requests s @ [(lat1, lng1), (lat2, lng2)]"
  by (simp add: reverseGeocode_v0_def)

end
